theory Spec2Isabelle
  imports Complex_Main "HOL-Library.AList" "HOL-Library.Char_ord" "HOL-Library.List_Lexorder"
    "HOL-Library.Multiset"
begin

section \<open>Data model of the Mexicano tournament engine\<close>

text \<open>
  The engine is the JavaScript of \<^verbatim>\<open>src/js/tournament.js\<close> (module \<^verbatim>\<open>Tournament\<close>) and
  \<^verbatim>\<open>src/js/pairing.js\<close> (module \<^verbatim>\<open>Pairing\<close>).

  A JavaScript number is modelled as an exact rational. This is exact for the integers of the
  engine (scores, points, counts of games, wins and losses, match ids) and for their sums and
  comparisons, since a double holds every integer up to \<open>2^53\<close>. It is not exact where a double
  rounds: the two quotients \<^verbatim>\<open>pointsPerGame\<close> and \<^verbatim>\<open>winPercentage\<close> are rounded by the code and
  exact in the model (the rounding keeps different quotients of such integers different and
  in the same order, which is all that the ranking asks of them), and a sum of two numbers
  that are not integers can be rounded by the code. The statements below that mention a
  score are about integer scores, or about the one pair of halves \<open>12.5 + 12.5\<close>, which a
  double adds exactly. \<^verbatim>\<open>NaN\<close>, which makes every
  comparison of \<^verbatim>\<open>isValidScore\<close> false, is not a value of the model. The field \<^verbatim>\<open>id\<close> of a match
  is \<open>match_id\<close> and the field \<^verbatim>\<open>name\<close> of a tournament is \<open>tournament_name\<close>, the plain names
  being taken.

  A score slot of a match holds \<^verbatim>\<open>null\<close>, \<^verbatim>\<open>undefined\<close> or a number. A player slot of a match holds
  a string, or \<^verbatim>\<open>undefined\<close> when the pairing loop read past the end of its group; it is a
  \<open>string option\<close> with \<open>None\<close> for \<^verbatim>\<open>undefined\<close>.
\<close>

datatype score = JNull | JUndefined | JNum rat

record Match =
  match_id :: int
  team1Player1 :: "string option"
  team1Player2 :: "string option"
  team2Player1 :: "string option"
  team2Player2 :: "string option"
  team1Score :: score
  team2Score :: score

record Round =
  roundNumber :: int
  matches :: "Match list"

text \<open>
  Instants (\<^verbatim>\<open>Date\<close> values and the ISO stamps made from them) are milliseconds on the local
  clock, counted from a local midnight, with days of 86400000 ms. The field \<open>tournamentDate\<close>
  holds the instant that \<^verbatim>\<open>new Date(tournament.tournamentDate)\<close> denotes.
\<close>

record Tournament =
  tournament_name :: string
  description :: string
  tournamentDate :: int
  players :: "string list"
  rounds :: "Round list"
  createdAt :: int
  updatedAt :: int

record PlayerStats =
  name :: string
  totalPoints :: rat
  gamesPlayed :: int
  wins :: int
  losses :: int
  pointsPerGame :: rat
  winPercentage :: rat

record RankedStats = PlayerStats +
  rank :: int

datatype error = InvalidScore | InvalidRoundNumber | MatchNotFound | CannotStartNextRound
  | TypeError

section \<open>Score validation\<close>

text \<open>
  \<^verbatim>\<open>isValidScore\<close>, tournament.js lines 48-52: two comparisons with 0 and one sum, with no test
  that the arguments are integers. On integer arguments the sum of the model is the sum of the
  code.
\<close>

definition isValidScore :: "rat \<Rightarrow> rat \<Rightarrow> bool" where
  "isValidScore score1 score2 \<longleftrightarrow>
     score1 \<ge> 0 \<and> score2 \<ge> 0 \<and> score1 + score2 = 25"

text \<open>\<^verbatim>\<open>isMatchComplete\<close>, tournament.js lines 200-206.\<close>

definition isMatchComplete :: "Match \<Rightarrow> bool" where
  "isMatchComplete m \<longleftrightarrow>
     team1Score m \<noteq> JNull \<and> team1Score m \<noteq> JUndefined \<and>
     team2Score m \<noteq> JNull \<and> team2Score m \<noteq> JUndefined \<and>
     (case (team1Score m, team2Score m) of
        (JNum a, JNum b) \<Rightarrow> isValidScore a b
      | _ \<Rightarrow> False)"

text \<open>\<^verbatim>\<open>isRoundComplete\<close>, tournament.js lines 213-215.\<close>

definition isRoundComplete :: "Round \<Rightarrow> bool" where
  "isRoundComplete r \<longleftrightarrow> list_all isMatchComplete (matches r)"

section \<open>Statistics\<close>

text \<open>
  The \<^verbatim>\<open>stats\<close> object of \<^verbatim>\<open>calculateStats\<close> (tournament.js lines 84-146) is the plain object
  \<^verbatim>\<open>{}\<close>, used as a dictionary. The model holds its own properties, which are what
  \<^verbatim>\<open>Object.values\<close> lists and what the caller gets, as an association list in insertion order:
  assigning to an existing key keeps its position, as a JavaScript object does. (A JavaScript
  object lists keys that look like array indices first; when the comparison of names tells
  different names apart, the ranking does not depend on the order in which the values are
  listed, see \<open>rankPlayers_only_order\<close> below.)

  The assignment \<^verbatim>\<open>stats[player] = {...}\<close> of line 89 stores the new entry under the key
  \<^verbatim>\<open>player\<close>, with one exception: for the key \<^verbatim>\<open>"__proto__"\<close> the assignment to a plain object
  runs the setter that \<^verbatim>\<open>Object.prototype\<close> has for that name, which makes the new entry the
  prototype of \<^verbatim>\<open>stats\<close> and creates no property. So a declared player of that name gets no
  entry; \<open>assignEntry\<close> is the assignment.

  The guard \<^verbatim>\<open>if (stats[player])\<close> of lines 111 and 124 reads along the prototype chain. For a
  key that is not an own property it can still be truthy: for the name of a member of
  \<^verbatim>\<open>Object.prototype\<close> (\<^verbatim>\<open>"constructor"\<close>, \<^verbatim>\<open>"toString"\<close>, \<^verbatim>\<open>"__proto__"\<close> itself) and, after a
  declared \<^verbatim>\<open>"__proto__"\<close>, for the name of a truthy field of the entry that became the
  prototype. The four updates then land on that member, outside the own properties, and none
  of them throws (the scripts are not in strict mode, where a write to a property of a string
  would throw). The own properties are left as they are, so for the result such a key is a
  missing key like any other: \<open>creditPlayer\<close> looks the key up among the own properties.
  A player slot that holds \<^verbatim>\<open>undefined\<close> is looked up under the property key \<^verbatim>\<open>"undefined"\<close>.
\<close>

definition propertyKey :: "string option \<Rightarrow> string" where
  "propertyKey p = (case p of None \<Rightarrow> ''undefined'' | Some s \<Rightarrow> s)"

definition zeroStats :: "string \<Rightarrow> PlayerStats" where
  "zeroStats player = \<lparr>name = player, totalPoints = 0, gamesPlayed = 0, wins = 0, losses = 0,
     pointsPerGame = 0, winPercentage = 0\<rparr>"

definition assignEntry :: "(string \<times> PlayerStats) list \<Rightarrow> string \<Rightarrow> (string \<times> PlayerStats) list" where
  "assignEntry stats player =
     (if player = ''__proto__'' then stats else AList.update player (zeroStats player) stats)"

definition initStats :: "string list \<Rightarrow> (string \<times> PlayerStats) list" where
  "initStats ps = foldl assignEntry [] ps"

definition credit :: "rat \<Rightarrow> bool \<Rightarrow> PlayerStats \<Rightarrow> PlayerStats" where
  "credit pts won s = s\<lparr>totalPoints := totalPoints s + pts,
     gamesPlayed := gamesPlayed s + 1,
     wins := (if won then wins s + 1 else wins s),
     losses := (if won then losses s else losses s + 1)\<rparr>"

definition creditPlayer ::
  "rat \<Rightarrow> bool \<Rightarrow> (string \<times> PlayerStats) list \<Rightarrow> string option \<Rightarrow> (string \<times> PlayerStats) list" where
  "creditPlayer pts won stats player =
     (case map_of stats (propertyKey player) of
        None \<Rightarrow> stats
      | Some _ \<Rightarrow> AList.map_entry (propertyKey player) (credit pts won) stats)"

definition processMatch :: "(string \<times> PlayerStats) list \<Rightarrow> Match \<Rightarrow> (string \<times> PlayerStats) list" where
  "processMatch stats m =
     (if \<not> isMatchComplete m then stats
      else case (team1Score m, team2Score m) of
        (JNum s1, JNum s2) \<Rightarrow>
          (let team1Players = [team1Player1 m, team1Player2 m];
               team2Players = [team2Player1 m, team2Player2 m];
               team1Won = (s1 > s2);
               stats1 = foldl (creditPlayer s1 team1Won) stats team1Players
           in foldl (creditPlayer s2 (\<not> team1Won)) stats1 team2Players)
      | _ \<Rightarrow> stats)"

definition derived :: "PlayerStats \<Rightarrow> PlayerStats" where
  "derived s =
     (if gamesPlayed s > 0
      then s\<lparr>pointsPerGame := totalPoints s / of_int (gamesPlayed s),
             winPercentage := (of_int (wins s) / of_int (gamesPlayed s)) * 100\<rparr>
      else s)"

definition calculateStats :: "Tournament \<Rightarrow> (string \<times> PlayerStats) list" where
  "calculateStats t =
     (let stats0 = initStats (players t);
          stats1 = foldl (\<lambda>stats r. foldl processMatch stats (matches r)) stats0 (rounds t)
      in map (\<lambda>(k, s). (k, derived s)) stats1)"

section \<open>Ranking\<close>

text \<open>
  The last key of the ranking is \<^verbatim>\<open>a.name.localeCompare(b.name)\<close> (tournament.js line 173).
  \<^verbatim>\<open>String.prototype.localeCompare\<close> is the runtime's: it compares by the collation of the
  default locale and returns a negative number, zero or a positive number. Which collation
  that is depends on the runtime, so every function of the engine that ranks takes the
  comparison as its parameter \<open>lc\<close>, and what is proved of them holds for every \<open>lc\<close>.

  The comparator handed to \<^verbatim>\<open>sort\<close>, tournament.js lines 159-174.
\<close>

definition compareStats :: "(string \<Rightarrow> string \<Rightarrow> int) \<Rightarrow> PlayerStats \<Rightarrow> PlayerStats \<Rightarrow> rat" where
  "compareStats lc a b =
     (if totalPoints b \<noteq> totalPoints a then totalPoints b - totalPoints a
      else if wins b \<noteq> wins a then of_int (wins b - wins a)
      else if pointsPerGame b \<noteq> pointsPerGame a then pointsPerGame b - pointsPerGame a
      else of_int (lc (name a) (name b)))"

text \<open>
  \<^verbatim>\<open>Array.prototype.sort\<close> is the runtime's; it is stable, and modelled as a stable insertion
  sort that puts \<open>x\<close> before \<open>y\<close> when the comparator is not positive.
\<close>

fun insertBy :: "('a \<Rightarrow> 'a \<Rightarrow> rat) \<Rightarrow> 'a \<Rightarrow> 'a list \<Rightarrow> 'a list" where
  "insertBy cmp x [] = [x]"
| "insertBy cmp x (y # ys) = (if cmp x y \<le> 0 then x # y # ys else y # insertBy cmp x ys)"

definition sortBy :: "('a \<Rightarrow> 'a \<Rightarrow> rat) \<Rightarrow> 'a list \<Rightarrow> 'a list" where
  "sortBy cmp xs = foldr (insertBy cmp) xs []"

definition withRank :: "PlayerStats \<Rightarrow> int \<Rightarrow> RankedStats" where
  "withRank s r = \<lparr>name = name s, totalPoints = totalPoints s, gamesPlayed = gamesPlayed s,
     wins = wins s, losses = losses s, pointsPerGame = pointsPerGame s,
     winPercentage = winPercentage s, rank = r\<rparr>"

text \<open>
  The rank loop, tournament.js lines 178-190: \<open>ranked\<close> are the players already visited, so the
  current index is its length and \<^verbatim>\<open>players[index - 1]\<close> is its last element.
\<close>

fun assignRanks :: "RankedStats list \<Rightarrow> PlayerStats list \<Rightarrow> RankedStats list" where
  "assignRanks ranked [] = ranked"
| "assignRanks ranked (player # rest) =
     (let index = int (length ranked);
          r = (if index = 0 then 1
               else let prev = ranked ! nat (index - 1) in
                 if totalPoints player = totalPoints prev \<and> wins player = wins prev
                 then rank prev else index + 1)
      in assignRanks (ranked @ [withRank player r]) rest)"

text \<open>\<^verbatim>\<open>rankPlayers\<close>, tournament.js lines 154-193.\<close>

definition rankPlayers :: "(string \<Rightarrow> string \<Rightarrow> int) \<Rightarrow> Tournament \<Rightarrow> RankedStats list" where
  "rankPlayers lc t =
     (let stats = calculateStats t;
          ps = sortBy (compareStats lc) (map snd stats)
      in assignRanks [] ps)"

text \<open>
  For the examples, the comparison that the runtime makes of two names of unaccented Latin
  letters: the names are compared letter by letter without regard to case, a name that is the
  beginning of another coming first, and two names that differ in case only are told apart
  at the first letter where they differ, the one with the small letter coming first. So
  \<^verbatim>\<open>'alice'.localeCompare('Bob')\<close> is negative, although the character code of \<^verbatim>\<open>B\<close> (66) is
  smaller than that of \<^verbatim>\<open>a\<close> (97).
\<close>

definition asciiLower :: "char \<Rightarrow> char" where
  "asciiLower c =
     (if CHR ''A'' \<le> c \<and> c \<le> CHR ''Z'' then char_of (of_char c + (32::nat)) else c)"

definition asciiCollation :: "string \<Rightarrow> string \<Rightarrow> int" where
  "asciiCollation a b =
     (let a' = map asciiLower a; b' = map asciiLower b in
      if a' < b' then - 1 else if b' < a' then 1
      else if a = b then 0 else if b < a then - 1 else 1)"

section \<open>Pairing\<close>

text \<open>\<^verbatim>\<open>Array.prototype.slice\<close> and an index read that yields \<^verbatim>\<open>undefined\<close> out of range.\<close>

definition slice :: "'a list \<Rightarrow> nat \<Rightarrow> nat \<Rightarrow> 'a list" where
  "slice xs i j = take (j - i) (drop i xs)"

definition elemAt :: "'a list \<Rightarrow> nat \<Rightarrow> 'a option" where
  "elemAt xs i = (if i < length xs then Some (xs ! i) else None)"

definition newMatch ::
  "int \<Rightarrow> string option \<Rightarrow> string option \<Rightarrow> string option \<Rightarrow> string option \<Rightarrow> Match" where
  "newMatch i a b c d = \<lparr>match_id = i, team1Player1 = a, team1Player2 = b,
     team2Player1 = c, team2Player2 = d, team1Score = JNull, team2Score = JNull\<rparr>"

text \<open>\<^verbatim>\<open>createInitialPairings\<close>, pairing.js lines 13-34.\<close>

function initialLoop :: "string list \<Rightarrow> nat \<Rightarrow> int \<Rightarrow> Match list \<Rightarrow> Match list" where
  "initialLoop ps i matchId acc =
     (if i < length ps then
        (let group = slice ps i (i + 4) in
         initialLoop ps (i + 4) (matchId + 1)
           (acc @ [newMatch matchId (elemAt group 0) (elemAt group 3) (elemAt group 1) (elemAt group 2)]))
      else acc)"
  by pat_completeness auto
termination
  by (relation "measure (\<lambda>(ps, i, matchId, acc). length ps - i)") auto

definition createInitialPairings :: "string list \<Rightarrow> Match list" where
  "createInitialPairings ps = initialLoop ps 0 1 []"

text \<open>
  \<^verbatim>\<open>createMexicanoPairings\<close>, pairing.js lines 42-64. Reading \<^verbatim>\<open>.name\<close> of a group member that
  is \<^verbatim>\<open>undefined\<close> throws a \<^verbatim>\<open>TypeError\<close>.
\<close>

function mexicanoLoop ::
  "RankedStats list \<Rightarrow> nat \<Rightarrow> int \<Rightarrow> Match list \<Rightarrow> error + Match list" where
  "mexicanoLoop rs i matchId acc =
     (if i < length rs then
        (let group = slice rs i (i + 4) in
         case (elemAt group 0, elemAt group 3, elemAt group 1, elemAt group 2) of
           (Some g0, Some g3, Some g1, Some g2) \<Rightarrow>
             mexicanoLoop rs (i + 4) (matchId + 1)
               (acc @ [newMatch matchId (Some (name g0)) (Some (name g3))
                         (Some (name g1)) (Some (name g2))])
         | _ \<Rightarrow> Inl TypeError)
      else Inr acc)"
  by pat_completeness auto
termination
  by (relation "measure (\<lambda>(rs, i, matchId, acc). length rs - i)") auto

definition createMexicanoPairings :: "RankedStats list \<Rightarrow> error + Match list" where
  "createMexicanoPairings rs = mexicanoLoop rs 0 1 []"

section \<open>Round lifecycle\<close>

text \<open>\<^verbatim>\<open>getCurrentRoundNumber\<close>, \<^verbatim>\<open>getCurrentRound\<close>, \<^verbatim>\<open>canStartNextRound\<close>: tournament.js lines 222-246.\<close>

definition getCurrentRoundNumber :: "Tournament \<Rightarrow> int" where
  "getCurrentRoundNumber t = (if length (rounds t) = 0 then 0 else int (length (rounds t)))"

definition getCurrentRound :: "Tournament \<Rightarrow> Round option" where
  "getCurrentRound t =
     (if length (rounds t) = 0 then None else Some (rounds t ! (length (rounds t) - 1)))"

definition canStartNextRound :: "Tournament \<Rightarrow> bool" where
  "canStartNextRound t =
     (case getCurrentRound t of None \<Rightarrow> True | Some currentRound \<Rightarrow> isRoundComplete currentRound)"

text \<open>
  \<^verbatim>\<open>generateNextRound\<close>, pairing.js lines 72-101. \<open>Inr None\<close> is the returned \<^verbatim>\<open>null\<close>,
  \<open>Inl\<close> an exception thrown by the pairing.
\<close>

definition maxId :: "Tournament \<Rightarrow> int" where
  "maxId t = foldl (\<lambda>mx m. max mx (match_id m)) 0 (concat (map matches (rounds t)))"

definition renumber :: "int \<Rightarrow> Match list \<Rightarrow> Match list" where
  "renumber mx ms = map2 (\<lambda>m index. m\<lparr>match_id := mx + int index + 1\<rparr>) ms [0..<length ms]"

definition generateNextRound :: "(string \<Rightarrow> string \<Rightarrow> int) \<Rightarrow> Tournament \<Rightarrow> error + Round option" where
  "generateNextRound lc t =
     (if \<not> canStartNextRound t then Inr None
      else
        let nextRoundNumber = getCurrentRoundNumber t + 1 in
        case (if nextRoundNumber = 1 then Inr (createInitialPairings (players t))
              else createMexicanoPairings (rankPlayers lc t)) of
          Inl e \<Rightarrow> Inl e
        | Inr ms \<Rightarrow>
            Inr (Some \<lparr>roundNumber = nextRoundNumber, matches = renumber (maxId t) ms\<rparr>))"

text \<open>
  The operations that mutate the tournament return the exception thrown, if any, together
  with the state in which they leave the tournament object. \<open>now\<close> is the clock reading that
  \<^verbatim>\<open>new Date()\<close> gives.

  \<^verbatim>\<open>addNextRound\<close>, pairing.js lines 108-119.
\<close>

definition addNextRound ::
  "(string \<Rightarrow> string \<Rightarrow> int) \<Rightarrow> int \<Rightarrow> Tournament \<Rightarrow> error option \<times> Tournament" where
  "addNextRound lc now t =
     (case generateNextRound lc t of
        Inl e \<Rightarrow> (Some e, t)
      | Inr None \<Rightarrow> (Some CannotStartNextRound, t)
      | Inr (Some newRound) \<Rightarrow> (None, t\<lparr>rounds := rounds t @ [newRound], updatedAt := now\<rparr>))"

text \<open>
  \<^verbatim>\<open>updateMatchScore\<close>, tournament.js lines 257-294. The round number and the match id are
  integers, as the caller reads them with \<^verbatim>\<open>parseInt\<close>. \<^verbatim>\<open>find\<close> returns the first match of the
  round with the id, and the two assignments write to that object. The three errors thrown
  by the function are \<open>InvalidScore\<close>, \<open>InvalidRoundNumber\<close> and \<open>MatchNotFound\<close>.
\<close>

fun setScore :: "int \<Rightarrow> rat \<Rightarrow> rat \<Rightarrow> Match list \<Rightarrow> Match list" where
  "setScore matchId score1 score2 [] = []"
| "setScore matchId score1 score2 (m # ms) =
     (if match_id m = matchId
      then m\<lparr>team1Score := JNum score1, team2Score := JNum score2\<rparr> # ms
      else m # setScore matchId score1 score2 ms)"

text \<open>Lines 267-275: the two assignments, once the round and the match are found.\<close>

definition writeScore :: "Tournament \<Rightarrow> int \<Rightarrow> int \<Rightarrow> rat \<Rightarrow> rat \<Rightarrow> Tournament" where
  "writeScore t roundIndex matchId score1 score2 =
     (let r = rounds t ! nat roundIndex in
      t\<lparr>rounds := (rounds t)
           [nat roundIndex := r\<lparr>matches := setScore matchId score1 score2 (matches r)\<rparr>]\<rparr>)"

text \<open>Lines 277-293: the later rounds are dropped and the next one is generated again.\<close>

definition cascade ::
  "(string \<Rightarrow> string \<Rightarrow> int) \<Rightarrow> int \<Rightarrow> Tournament \<Rightarrow> int \<Rightarrow> error option \<times> Tournament" where
  "cascade lc now t1 roundNum =
     (let roundIndex = roundNum - 1;
          currentRoundNumber = getCurrentRoundNumber t1
      in
        if roundNum < currentRoundNumber then
          let t2 = t1\<lparr>rounds := take (nat roundNum) (rounds t1)\<rparr> in
          if isRoundComplete (rounds t2 ! nat roundIndex) then
            (case generateNextRound lc t2 of
               Inl e \<Rightarrow> (Some e, t2)
             | Inr None \<Rightarrow> (None, t2\<lparr>updatedAt := now\<rparr>)
             | Inr (Some nextRound) \<Rightarrow>
                 (None, t2\<lparr>rounds := rounds t2 @ [nextRound], updatedAt := now\<rparr>))
          else (None, t2\<lparr>updatedAt := now\<rparr>)
        else (None, t1\<lparr>updatedAt := now\<rparr>))"

definition updateMatchScore ::
  "(string \<Rightarrow> string \<Rightarrow> int) \<Rightarrow> int \<Rightarrow> Tournament \<Rightarrow> int \<Rightarrow> int \<Rightarrow> rat \<Rightarrow> rat \<Rightarrow>
     error option \<times> Tournament" where
  "updateMatchScore lc now t roundNum matchId score1 score2 =
     (if \<not> isValidScore score1 score2 then (Some InvalidScore, t)
      else
        let roundIndex = roundNum - 1 in
        if roundIndex < 0 \<or> roundIndex \<ge> int (length (rounds t)) then (Some InvalidRoundNumber, t)
        else
          let r = rounds t ! nat roundIndex in
          case find (\<lambda>m. match_id m = matchId) (matches r) of
            None \<Rightarrow> (Some MatchNotFound, t)
          | Some _ \<Rightarrow> cascade lc now (writeScore t roundIndex matchId score1 score2) roundNum)"

text \<open>
  \<^verbatim>\<open>canEdit\<close>, tournament.js lines 301-311, with the clock reading as an argument.
  \<^verbatim>\<open>setHours(0, 0, 0, 0)\<close> goes back to the start of the day, \<^verbatim>\<open>setDate(getDate() + 2)\<close> moves two
  days on.
\<close>

definition msPerDay :: int where
  "msPerDay = 86400000"

definition startOfDay :: "int \<Rightarrow> int" where
  "startOfDay d = d - d mod msPerDay"

definition canEdit :: "Tournament \<Rightarrow> int \<Rightarrow> bool" where
  "canEdit t now =
     (let day = startOfDay (tournamentDate t);
          editDeadline = day + 2 * msPerDay
      in now < editDeadline)"

section \<open>Notions used to state the properties\<close>

text \<open>
  The order the spec gives for the ranking: total points descending, then wins descending,
  then points per game descending, then name ascending, where \<open>lc\<close> compares the names: \<open>a\<close>
  is not after \<open>b\<close> when \<open>lc a b\<close> is not positive.
\<close>

definition rankedBefore ::
  "(string \<Rightarrow> string \<Rightarrow> int) \<Rightarrow> 'a PlayerStats_scheme \<Rightarrow> 'b PlayerStats_scheme \<Rightarrow> bool" where
  "rankedBefore lc a b \<longleftrightarrow>
     totalPoints a > totalPoints b \<or>
     (totalPoints a = totalPoints b \<and>
       (wins a > wins b \<or>
        (wins a = wins b \<and>
          (pointsPerGame a > pointsPerGame b \<or>
           (pointsPerGame a = pointsPerGame b \<and> lc (name a) (name b) \<le> 0)))))"

text \<open>
  What a collation is expected to be: any two names are comparable, and the comparison is
  transitive. It separates names when no two different names compare as equal.
\<close>

definition totalPreorder :: "(string \<Rightarrow> string \<Rightarrow> int) \<Rightarrow> bool" where
  "totalPreorder lc \<longleftrightarrow>
     (\<forall>a b. lc a b \<le> 0 \<or> lc b a \<le> 0) \<and>
     (\<forall>a b c. lc a b \<le> 0 \<and> lc b c \<le> 0 \<longrightarrow> lc a c \<le> 0)"

definition separatesNames :: "(string \<Rightarrow> string \<Rightarrow> int) \<Rightarrow> bool" where
  "separatesNames lc \<longleftrightarrow> (\<forall>a b. lc a b \<le> 0 \<and> lc b a \<le> 0 \<longrightarrow> a = b)"

text \<open>
  The comparison of names in the spec's words, case-sensitive lexicographic: the order of
  \<open>string\<close> by character code.
\<close>

definition caseSensitiveOrder :: "string \<Rightarrow> string \<Rightarrow> int" where
  "caseSensitiveOrder a b = (if a < b then - 1 else if a = b then 0 else 1)"

text \<open>
  The match that the spec's pairing rule makes of the \<open>k\<close>-th group of four of the sequence
  \<open>ps\<close> read from position \<open>i\<close>: first with fourth against second with third.
\<close>

definition quartet :: "string list \<Rightarrow> int \<Rightarrow> nat \<Rightarrow> nat \<Rightarrow> Match" where
  "quartet ps matchId i k =
     newMatch (matchId + int k) (Some (ps ! (i + 4 * k))) (Some (ps ! (i + 4 * k + 3)))
       (Some (ps ! (i + 4 * k + 1))) (Some (ps ! (i + 4 * k + 2)))"

text \<open>
  The four player slots of a match, in the order of the group they were taken from, and the
  spec's description of a pairing of the sequence \<open>ps\<close>: one match for each consecutive group
  of four, the first and fourth of the group against the second and third, four different
  players in each match, and every player of \<open>ps\<close> in exactly one match.
\<close>

definition participants :: "Match \<Rightarrow> string option list" where
  "participants m = [team1Player1 m, team2Player1 m, team2Player2 m, team1Player2 m]"

definition pairedInFours :: "string list \<Rightarrow> Match list \<Rightarrow> bool" where
  "pairedInFours ps ms \<longleftrightarrow>
     length ms = length ps div 4 \<and>
     (\<forall>k < length ms.
        team1Player1 (ms ! k) = Some (ps ! (4 * k)) \<and>
        team1Player2 (ms ! k) = Some (ps ! (4 * k + 3)) \<and>
        team2Player1 (ms ! k) = Some (ps ! (4 * k + 1)) \<and>
        team2Player2 (ms ! k) = Some (ps ! (4 * k + 2)) \<and>
        distinct (participants (ms ! k))) \<and>
     (\<forall>p \<in> set ps. \<exists>!k. k < length ms \<and> Some p \<in> set (participants (ms ! k)))"

text \<open>
  The spec's account of the statistics. Every complete match gives four credits, one for each
  player slot: the slot's team's score, and whether the team won, which is decided by
  \<open>team1Score > team2Score\<close> (so team 2 wins when the scores are equal, which two integers
  that add up to 25 never are). The credits of a player are those of the slots that hold the
  player's name, over all complete matches of all rounds.
\<close>

definition scoreValue :: "score \<Rightarrow> rat" where
  "scoreValue s = (case s of JNum x \<Rightarrow> x | _ \<Rightarrow> 0)"

definition credits :: "Match \<Rightarrow> (string option \<times> rat \<times> bool) list" where
  "credits m =
     (let s1 = scoreValue (team1Score m); s2 = scoreValue (team2Score m) in
      [(team1Player1 m, s1, s1 > s2), (team1Player2 m, s1, s1 > s2),
       (team2Player1 m, s2, \<not> s1 > s2), (team2Player2 m, s2, \<not> s1 > s2)])"

definition completeMatches :: "Tournament \<Rightarrow> Match list" where
  "completeMatches t = filter isMatchComplete (concat (map matches (rounds t)))"

definition creditsOf :: "Tournament \<Rightarrow> string \<Rightarrow> (rat \<times> bool) list" where
  "creditsOf t p =
     map snd (filter (\<lambda>c. propertyKey (fst c) = p) (concat (map credits (completeMatches t))))"

text \<open>
  Renaming the participants of the matches, to say that names outside the declared player
  list do not matter: \<open>keepsDeclared f ps\<close> holds when \<open>f\<close> leaves the declared names alone and
  maps undeclared names to undeclared names.
\<close>

definition renameMatch :: "(string option \<Rightarrow> string option) \<Rightarrow> Match \<Rightarrow> Match" where
  "renameMatch f m = m\<lparr>team1Player1 := f (team1Player1 m),
     team1Player2 := f (team1Player2 m), team2Player1 := f (team2Player1 m),
     team2Player2 := f (team2Player2 m)\<rparr>"

definition renameSlots :: "(string option \<Rightarrow> string option) \<Rightarrow> Tournament \<Rightarrow> Tournament" where
  "renameSlots f t =
     t\<lparr>rounds := map (\<lambda>r. r\<lparr>matches := map (renameMatch f) (matches r)\<rparr>) (rounds t)\<rparr>"

definition keepsDeclared :: "(string option \<Rightarrow> string option) \<Rightarrow> string list \<Rightarrow> bool" where
  "keepsDeclared f ps \<longleftrightarrow>
     (\<forall>q. propertyKey q \<in> set ps \<longrightarrow> propertyKey (f q) = propertyKey q) \<and>
     (\<forall>q. propertyKey q \<notin> set ps \<longrightarrow> propertyKey (f q) \<notin> set ps)"

text \<open>One credit applied to the stats object.\<close>

definition applyCredit ::
  "(string \<times> PlayerStats) list \<Rightarrow> string option \<times> rat \<times> bool \<Rightarrow> (string \<times> PlayerStats) list" where
  "applyCredit stats c = creditPlayer (fst (snd c)) (snd (snd c)) stats (fst c)"

section \<open>A sample tournament\<close>

text \<open>
  Eight players; round 1 is the entry-order pairing with both scores entered, round 2 the
  Mexicano pairing that follows from it, not yet played.
\<close>

definition samplePlayers :: "string list" where
  "samplePlayers = [''A'', ''B'', ''C'', ''D'', ''E'', ''F'', ''G'', ''H'']"

definition sampleRound1 :: Round where
  "sampleRound1 = \<lparr>roundNumber = 1, matches =
     [(newMatch 1 (Some ''A'') (Some ''D'') (Some ''B'') (Some ''C''))
        \<lparr>team1Score := JNum 15, team2Score := JNum 10\<rparr>,
      (newMatch 2 (Some ''E'') (Some ''H'') (Some ''F'') (Some ''G''))
        \<lparr>team1Score := JNum 5, team2Score := JNum 20\<rparr>]\<rparr>"

definition sampleRound2 :: Round where
  "sampleRound2 = \<lparr>roundNumber = 2, matches =
     [newMatch 3 (Some ''F'') (Some ''D'') (Some ''G'') (Some ''A''),
      newMatch 4 (Some ''B'') (Some ''H'') (Some ''C'') (Some ''E'')]\<rparr>"

definition sampleTournament :: Tournament where
  "sampleTournament = \<lparr>tournament_name = ''Mexicano'', description = [], tournamentDate = 0,
     players = samplePlayers, rounds = [sampleRound1, sampleRound2], createdAt = 0,
     updatedAt = 0\<rparr>"

text \<open>
  The first round alone, with a guest in the first match who is not a declared player, and a
  renaming of the guest.
\<close>

definition guestTournament :: Tournament where
  "guestTournament = sampleTournament\<lparr>rounds := [\<lparr>roundNumber = 1, matches =
     [(newMatch 1 (Some ''Zed'') (Some ''D'') (Some ''B'') (Some ''C''))
        \<lparr>team1Score := JNum 15, team2Score := JNum 10\<rparr>,
      (newMatch 2 (Some ''E'') (Some ''H'') (Some ''F'') (Some ''G''))
        \<lparr>team1Score := JNum 5, team2Score := JNum 20\<rparr>]\<rparr>]\<rparr>"

definition renameGuest :: "string option \<Rightarrow> string option" where
  "renameGuest q = (if q = Some ''Zed'' then Some ''Yan'' else q)"

text \<open>
  Eight players whose names begin with capital and with small letters, before the first
  round: all entries are level, so their names alone decide the ranking.
\<close>

definition mixedCaseTournament :: Tournament where
  "mixedCaseTournament = \<lparr>tournament_name = ''Mexicano'', description = [], tournamentDate = 0,
     players = [''Bob'', ''alice'', ''Dave'', ''carol'', ''Frank'', ''erin'', ''Heidi'', ''grace''],
     rounds = [], createdAt = 0, updatedAt = 0\<rparr>"

text \<open>
  Eight players, the last of whom is called \<^verbatim>\<open>__proto__\<close> (a name that \<^verbatim>\<open>validatePlayers\<close>,
  tournament.js lines 21-40, accepts), after a first round in entry-order pairing with both
  scores entered.
\<close>

definition protoTournament :: Tournament where
  "protoTournament = \<lparr>tournament_name = ''Mexicano'', description = [], tournamentDate = 0,
     players = [''A'', ''B'', ''C'', ''D'', ''E'', ''F'', ''G'', ''__proto__''],
     rounds = [\<lparr>roundNumber = 1, matches =
       [(newMatch 1 (Some ''A'') (Some ''D'') (Some ''B'') (Some ''C''))
          \<lparr>team1Score := JNum 15, team2Score := JNum 10\<rparr>,
        (newMatch 2 (Some ''E'') (Some ''__proto__'') (Some ''F'') (Some ''G''))
          \<lparr>team1Score := JNum 5, team2Score := JNum 20\<rparr>]\<rparr>],
     createdAt = 0, updatedAt = 0\<rparr>"

text \<open>Four entries of a ranking in which two players are level on points and wins.\<close>

definition podium :: "PlayerStats list" where
  "podium =
     [\<lparr>name = ''Alice'', totalPoints = 50, gamesPlayed = 3, wins = 3, losses = 0,
        pointsPerGame = 50 / 3, winPercentage = 100\<rparr>,
      \<lparr>name = ''Bob'', totalPoints = 45, gamesPlayed = 3, wins = 2, losses = 1,
        pointsPerGame = 15, winPercentage = 200 / 3\<rparr>,
      \<lparr>name = ''Carol'', totalPoints = 45, gamesPlayed = 4, wins = 2, losses = 2,
        pointsPerGame = 45 / 4, winPercentage = 50\<rparr>,
      \<lparr>name = ''Dave'', totalPoints = 40, gamesPlayed = 3, wins = 1, losses = 2,
        pointsPerGame = 40 / 3, winPercentage = 100 / 3\<rparr>]"

section \<open>Auxiliary facts\<close>

subsection \<open>Sorting\<close>

lemma mset_insertBy: "mset (insertBy cmp x xs) = add_mset x (mset xs)"
  by (induction xs) auto

lemma mset_sortBy: "mset (sortBy cmp xs) = mset xs"
  unfolding sortBy_def by (induction xs) (auto simp: mset_insertBy)

lemma length_sortBy: "length (sortBy cmp xs) = length xs"
  by (metis mset_sortBy size_mset)

lemma set_insertBy: "set (insertBy cmp x xs) = insert x (set xs)"
  by (metis mset_insertBy set_mset_add_mset_insert set_mset_mset)

lemma compareStats_le0: "compareStats lc a b \<le> 0 \<longleftrightarrow> rankedBefore lc a b"
  by (auto simp: compareStats_def rankedBefore_def)

lemma totalPreorder_total: "totalPreorder lc \<Longrightarrow> lc a b \<le> 0 \<or> lc b a \<le> 0"
  unfolding totalPreorder_def by blast

lemma totalPreorder_trans: "totalPreorder lc \<Longrightarrow> lc a b \<le> 0 \<Longrightarrow> lc b c \<le> 0 \<Longrightarrow> lc a c \<le> 0"
  unfolding totalPreorder_def by blast

lemma rankedBefore_total:
  assumes "totalPreorder lc"
  shows "rankedBefore lc a b \<or> rankedBefore lc b a"
  using totalPreorder_total [OF assms, of "name a" "name b"]
  unfolding rankedBefore_def by (metis linorder_less_linear)

lemma rankedBefore_trans:
  assumes "totalPreorder lc" "rankedBefore lc a b" "rankedBefore lc b c"
  shows "rankedBefore lc a c"
  using assms(2,3) totalPreorder_trans [OF assms(1), of "name a" "name b" "name c"]
  unfolding rankedBefore_def by (elim disjE conjE) (auto dest: order_less_trans)

lemma sorted_insertBy:
  assumes tp: "totalPreorder lc"
  shows "sorted_wrt (rankedBefore lc) xs \<Longrightarrow>
    sorted_wrt (rankedBefore lc) (insertBy (compareStats lc) x xs)"
proof (induction xs)
  case Nil
  then show ?case by simp
next
  case (Cons y ys)
  show ?case
  proof (cases "compareStats lc x y \<le> 0")
    case True
    then have xy: "rankedBefore lc x y" by (simp add: compareStats_le0)
    with Cons.prems have "\<forall>z\<in>set ys. rankedBefore lc x z"
      by (auto intro: rankedBefore_trans [OF tp])
    with True xy Cons.prems show ?thesis by simp
  next
    case False
    then have "rankedBefore lc y x"
      using rankedBefore_total [OF tp, of x y] by (simp add: compareStats_le0)
    with False Cons show ?thesis by (auto simp: set_insertBy)
  qed
qed

lemma sorted_sortBy:
  "totalPreorder lc \<Longrightarrow> sorted_wrt (rankedBefore lc) (sortBy (compareStats lc) xs)"
  unfolding sortBy_def by (induction xs) (auto intro: sorted_insertBy)

text \<open>The comparison of the examples is a total preorder that separates names.\<close>

lemma asciiCollation_le0:
  "asciiCollation a b \<le> 0 \<longleftrightarrow>
     map asciiLower a < map asciiLower b \<or> (map asciiLower a = map asciiLower b \<and> b \<le> a)"
  by (auto simp: asciiCollation_def Let_def)

lemma asciiCollation_totalPreorder: "totalPreorder asciiCollation"
  unfolding totalPreorder_def asciiCollation_le0 by (intro conjI allI impI) auto

lemma asciiCollation_separatesNames: "separatesNames asciiCollation"
  unfolding separatesNames_def asciiCollation_le0 by (intro allI impI) auto

subsection \<open>Rank assignment\<close>

lemma truncate_withRank: "PlayerStats.truncate (withRank s r) = s"
  by (simp add: withRank_def PlayerStats.truncate_def)

lemma rank_withRank: "rank (withRank s r) = r"
  by (simp add: withRank_def)

lemma length_assignRanks: "length (assignRanks acc ps) = length acc + length ps"
  by (induction ps arbitrary: acc) (auto simp: Let_def)

lemma assignRanks_prefix: "i < length acc \<Longrightarrow> assignRanks acc ps ! i = acc ! i"
  by (induction ps arbitrary: acc) (auto simp: Let_def nth_append)

lemma assignRanks_nth:
  "i < length ps \<Longrightarrow>
   PlayerStats.truncate (assignRanks acc ps ! (length acc + i)) = ps ! i \<and>
   rank (assignRanks acc ps ! (length acc + i)) =
     (if length acc + i = 0 then 1
      else if totalPoints (ps ! i) = totalPoints (assignRanks acc ps ! (length acc + i - 1)) \<and>
              wins (ps ! i) = wins (assignRanks acc ps ! (length acc + i - 1))
           then rank (assignRanks acc ps ! (length acc + i - 1))
           else int (length acc + i) + 1)"
proof (induction ps arbitrary: acc i)
  case Nil
  then show ?case by simp
next
  case (Cons p rest)
  define r where "r = (if int (length acc) = 0 then 1
               else let prev = acc ! nat (int (length acc) - 1) in
                 if totalPoints p = totalPoints prev \<and> wins p = wins prev
                 then rank prev else int (length acc) + 1)"
  have step: "assignRanks acc (p # rest) = assignRanks (acc @ [withRank p r]) rest"
    by (simp add: r_def Let_def)
  show ?case
  proof (cases i)
    case 0
    have at: "assignRanks acc (p # rest) ! length acc = withRank p r"
      unfolding step by (simp add: assignRanks_prefix)
    have prev: "length acc \<noteq> 0 \<Longrightarrow>
        assignRanks acc (p # rest) ! (length acc - 1) = acc ! (length acc - 1)"
      unfolding step by (simp add: assignRanks_prefix nth_append)
    have natm: "nat (int (length acc) - 1) = length acc - 1" by simp
    show ?thesis
      using 0 at prev
      by (auto simp: truncate_withRank rank_withRank r_def Let_def natm)
  next
    case (Suc j)
    with Cons.prems have j: "j < length rest" by simp
    from Cons.IH [OF j, of "acc @ [withRank p r]"] Suc
    show ?thesis unfolding step by simp
  qed
qed

subsection \<open>Keys of the stats object\<close>

lemma map_fst_map_entry: "map fst (AList.map_entry k f al) = map fst al"
  by (induction al) auto

lemma map_fst_creditPlayer: "map fst (creditPlayer pts won stats q) = map fst stats"
  by (simp add: creditPlayer_def map_fst_map_entry split: option.splits)

lemma map_fst_processMatch: "map fst (processMatch stats m) = map fst stats"
  by (simp add: processMatch_def Let_def map_fst_creditPlayer split: score.splits)

lemma map_fst_foldl_processMatch: "map fst (foldl processMatch stats ms) = map fst stats"
  by (induction ms arbitrary: stats) (auto simp: map_fst_processMatch)

lemma foldl_rounds_concat:
  "foldl (\<lambda>stats r. foldl processMatch stats (matches r)) stats rs =
   foldl processMatch stats (concat (map matches rs))"
  by (induction rs arbitrary: stats) auto

lemma map_of_foldl_assignEntry:
  "map_of (foldl assignEntry st ps) p =
     (if p \<in> set ps \<and> p \<noteq> ''__proto__'' then Some (zeroStats p) else map_of st p)"
  by (induction ps arbitrary: st) (auto simp: assignEntry_def update_conv')

lemma map_of_initStats:
  "map_of (initStats ps) p =
     (if p \<in> set ps \<and> p \<noteq> ''__proto__'' then Some (zeroStats p) else None)"
  by (simp add: initStats_def map_of_foldl_assignEntry)

lemma distinct_foldl_assignEntry:
  "distinct (map fst st) \<Longrightarrow> distinct (map fst (foldl assignEntry st ps))"
  by (induction ps arbitrary: st) (auto simp: assignEntry_def distinct_update)

lemma distinct_initStats: "distinct (map fst (initStats ps))"
  by (simp add: initStats_def distinct_foldl_assignEntry)

lemma set_fst_foldl_assignEntry:
  "fst ` set (foldl assignEntry st ps) = fst ` set st \<union> (set ps - {''__proto__''})"
  by (induction ps arbitrary: st) (auto simp: assignEntry_def dom_update)

lemma keys_initStats: "set (map fst (initStats ps)) = set ps - {''__proto__''}"
  by (simp add: initStats_def set_fst_foldl_assignEntry)

lemma map_fst_calculateStats: "map fst (calculateStats t) = map fst (initStats (players t))"
  by (simp add: calculateStats_def Let_def foldl_rounds_concat map_fst_foldl_processMatch
      case_prod_unfold comp_def)

lemma length_calculateStats:
  "distinct (players t) \<Longrightarrow> ''__proto__'' \<notin> set (players t) \<Longrightarrow>
   length (calculateStats t) = length (players t)"
proof -
  assume d: "distinct (players t)" and np: "''__proto__'' \<notin> set (players t)"
  have "length (calculateStats t) = length (map fst (calculateStats t))" by simp
  also have "\<dots> = card (set (map fst (initStats (players t))))"
    by (simp only: map_fst_calculateStats distinct_card [OF distinct_initStats])
  also have "\<dots> = card (set (players t))"
    using np by (simp only: keys_initStats) simp
  also have "\<dots> = length (players t)"
    by (simp only: distinct_card [OF d])
  finally show ?thesis .
qed

subsection \<open>The pairing loops\<close>

declare initialLoop.simps [simp del] mexicanoLoop.simps [simp del]

lemma elemAt_slice:
  "i + 4 \<le> length xs \<Longrightarrow> j < 4 \<Longrightarrow> elemAt (slice xs i (i + 4)) j = Some (xs ! (i + j))"
  by (simp add: elemAt_def slice_def)

lemma elemAt_slice_short:
  "i < length xs \<Longrightarrow> length xs < i + 4 \<Longrightarrow> elemAt (slice xs i (i + 4)) 3 = None"
  by (simp add: elemAt_def slice_def)

lemma map_upt_Suc_shift: "map f [0..<Suc n] = f 0 # map (\<lambda>k. f (Suc k)) [0..<n]"
  by (simp add: upt_conv_Cons map_Suc_upt [symmetric] del: upt_Suc)

lemma initialLoop_quartets:
  "length ps = i + 4 * n \<Longrightarrow>
   initialLoop ps i matchId acc = acc @ map (quartet ps matchId i) [0..<n]"
proof (induction ps i matchId acc arbitrary: n rule: initialLoop.induct)
  case (1 ps i matchId acc)
  show ?case
  proof (cases n)
    case 0
    with "1.prems" have "i = length ps" by simp
    with 0 show ?thesis by (subst initialLoop.simps) simp
  next
    case (Suc n')
    with "1.prems" have lt: "i < length ps" and ge: "i + 4 \<le> length ps"
      and len: "length ps = (i + 4) + 4 * n'" by simp_all
    have q0: "newMatch matchId (elemAt (slice ps i (i + 4)) 0) (elemAt (slice ps i (i + 4)) 3)
                    (elemAt (slice ps i (i + 4)) 1) (elemAt (slice ps i (i + 4)) 2) =
              quartet ps matchId i 0"
      using ge by (simp add: elemAt_slice quartet_def)
    have shift: "quartet ps (matchId + 1) (i + 4) = (\<lambda>k. quartet ps matchId i (Suc k))"
      by (rule ext) (simp add: quartet_def algebra_simps)
    have "initialLoop ps i matchId acc =
        initialLoop ps (i + 4) (matchId + 1) (acc @ [quartet ps matchId i 0])"
      by (subst initialLoop.simps) (simp only: lt if_True Let_def q0)
    also have "\<dots> = (acc @ [quartet ps matchId i 0]) @
        map (quartet ps (matchId + 1) (i + 4)) [0..<n']"
      using "1.IH" [OF lt refl len] by (simp only: q0)
    also have "\<dots> = acc @ map (quartet ps matchId i) [0..<Suc n']"
      by (simp only: map_upt_Suc_shift shift append_assoc append_Cons append_Nil)
    finally show ?thesis by (simp only: Suc)
  qed
qed

lemma createInitialPairings_quartets:
  "length ps = 4 * n \<Longrightarrow> createInitialPairings ps = map (quartet ps 1 0) [0..<n]"
  using initialLoop_quartets [of ps 0 n 1 "[]"] by (simp add: createInitialPairings_def)

lemma mexicanoLoop_quartets:
  "length rs = i + 4 * n \<Longrightarrow>
   mexicanoLoop rs i matchId acc = Inr (acc @ map (quartet (map name rs) matchId i) [0..<n])"
proof (induction rs i matchId acc arbitrary: n rule: mexicanoLoop.induct)
  case (1 rs i matchId acc)
  show ?case
  proof (cases n)
    case 0
    with "1.prems" have "i = length rs" by simp
    with 0 show ?thesis by (subst mexicanoLoop.simps) simp
  next
    case (Suc n')
    with "1.prems" have lt: "i < length rs" and ge: "i + 4 \<le> length rs"
      and len: "length rs = (i + 4) + 4 * n'" by simp_all
    have g: "elemAt (slice rs i (i + 4)) 0 = Some (rs ! i)"
            "elemAt (slice rs i (i + 4)) 1 = Some (rs ! (i + 1))"
            "elemAt (slice rs i (i + 4)) 2 = Some (rs ! (i + 2))"
            "elemAt (slice rs i (i + 4)) 3 = Some (rs ! (i + 3))"
      using ge elemAt_slice [of i rs] by simp_all
    have q0: "newMatch matchId (Some (name (rs ! i))) (Some (name (rs ! (i + 3))))
                (Some (name (rs ! (i + 1)))) (Some (name (rs ! (i + 2)))) =
              quartet (map name rs) matchId i 0"
      using ge by (simp add: quartet_def)
    have shift: "quartet (map name rs) (matchId + 1) (i + 4) =
        (\<lambda>k. quartet (map name rs) matchId i (Suc k))"
      by (rule ext) (simp add: quartet_def algebra_simps)
    have "mexicanoLoop rs i matchId acc =
        mexicanoLoop rs (i + 4) (matchId + 1) (acc @ [quartet (map name rs) matchId i 0])"
      by (subst mexicanoLoop.simps) (simp only: lt if_True Let_def g option.case prod.case q0)
    also have "\<dots> = Inr ((acc @ [quartet (map name rs) matchId i 0]) @
        map (quartet (map name rs) (matchId + 1) (i + 4)) [0..<n'])"
      using "1.IH" [OF lt refl _ refl refl refl refl refl refl len,
          of "rs ! i" "rs ! (i + 3)" "rs ! (i + 1)" "rs ! (i + 2)"] g
      by (simp only: q0)
    also have "\<dots> = Inr (acc @ map (quartet (map name rs) matchId i) [0..<Suc n'])"
      by (simp only: map_upt_Suc_shift shift append_assoc append_Cons append_Nil)
    finally show ?thesis by (simp only: Suc)
  qed
qed

lemma createMexicanoPairings_quartets:
  "length rs = 4 * n \<Longrightarrow>
   createMexicanoPairings rs = Inr (map (quartet (map name rs) 1 0) [0..<n])"
  using mexicanoLoop_quartets [of rs 0 n 1 "[]"] by (simp add: createMexicanoPairings_def)

lemma mexicanoLoop_short:
  "i < length rs \<Longrightarrow> length rs < i + 4 \<Longrightarrow> mexicanoLoop rs i matchId acc = Inl TypeError"
  by (simp add: mexicanoLoop.simps [of rs i] Let_def elemAt_slice_short split: option.splits)

subsection \<open>Groups of four\<close>

lemma quartet_fields:
  "team1Player1 (quartet ps i 0 k) = Some (ps ! (4 * k))"
  "team1Player2 (quartet ps i 0 k) = Some (ps ! (4 * k + 3))"
  "team2Player1 (quartet ps i 0 k) = Some (ps ! (4 * k + 1))"
  "team2Player2 (quartet ps i 0 k) = Some (ps ! (4 * k + 2))"
  "team1Score (quartet ps i 0 k) = JNull" "team2Score (quartet ps i 0 k) = JNull"
  "match_id (quartet ps i 0 k) = i + int k"
  by (simp_all add: quartet_def newMatch_def)

lemma quartet_distinct:
  "distinct ps \<Longrightarrow> 4 * k + 3 < length ps \<Longrightarrow> distinct (participants (quartet ps i 0 k))"
  by (simp add: participants_def quartet_fields nth_eq_iff_index_eq)

lemma quartet_member:
  assumes "distinct ps" "4 * k + 3 < length ps" "j < length ps"
  shows "Some (ps ! j) \<in> set (participants (quartet ps i 0 k)) \<longleftrightarrow> j div 4 = k"
proof
  assume "Some (ps ! j) \<in> set (participants (quartet ps i 0 k))"
  then have "ps ! j = ps ! (4 * k) \<or> ps ! j = ps ! (4 * k + 1) \<or> ps ! j = ps ! (4 * k + 2) \<or>
      ps ! j = ps ! (4 * k + 3)"
    by (auto simp: participants_def quartet_fields)
  with assms have "j = 4 * k \<or> j = 4 * k + 1 \<or> j = 4 * k + 2 \<or> j = 4 * k + 3"
    by (simp add: nth_eq_iff_index_eq)
  then show "j div 4 = k" by auto
next
  assume "j div 4 = k"
  then have "j = 4 * k + j mod 4" by auto
  moreover have "j mod 4 = 0 \<or> j mod 4 = 1 \<or> j mod 4 = 2 \<or> j mod 4 = 3" by arith
  ultimately have "j = 4 * k \<or> j = 4 * k + 1 \<or> j = 4 * k + 2 \<or> j = 4 * k + 3" by presburger
  then show "Some (ps ! j) \<in> set (participants (quartet ps i 0 k))"
    by (auto simp: participants_def quartet_fields)
qed

lemma pairedInFours_quartets:
  assumes d: "distinct ps" and len: "length ps = 4 * n"
  shows "pairedInFours ps (map (quartet ps i 0) [0..<n])"
proof -
  let ?ms = "map (quartet ps i 0) [0..<n]"
  have bound: "k < n \<Longrightarrow> 4 * k + 3 < length ps" for k using len by simp
  have fields: "\<forall>k < length ?ms.
        team1Player1 (?ms ! k) = Some (ps ! (4 * k)) \<and>
        team1Player2 (?ms ! k) = Some (ps ! (4 * k + 3)) \<and>
        team2Player1 (?ms ! k) = Some (ps ! (4 * k + 1)) \<and>
        team2Player2 (?ms ! k) = Some (ps ! (4 * k + 2)) \<and>
        distinct (participants (?ms ! k))"
    using d bound by (simp add: quartet_fields quartet_distinct)
  have once: "\<exists>!k. k < length ?ms \<and> Some p \<in> set (participants (?ms ! k))" if "p \<in> set ps" for p
  proof -
    from that obtain j where j: "j < length ps" "p = ps ! j" by (auto simp: in_set_conv_nth)
    have jn: "j div 4 < n" using j(1) len by simp
    have iff: "k < n \<Longrightarrow> Some p \<in> set (participants (quartet ps i 0 k)) \<longleftrightarrow> j div 4 = k" for k
      using quartet_member [OF d bound j(1)] j(2) by simp
    show ?thesis
    proof (rule ex1I [of _ "j div 4"])
      show "j div 4 < length ?ms \<and> Some p \<in> set (participants (?ms ! (j div 4)))"
        using jn iff by simp
    next
      fix k assume k: "k < length ?ms \<and> Some p \<in> set (participants (?ms ! k))"
      then have "k < n" by simp
      with k iff [of k] show "k = j div 4" by simp
    qed
  qed
  show ?thesis
    unfolding pairedInFours_def using fields once len by simp
qed

lemma valid_count: "length ps \<in> {8, 12, 16} \<Longrightarrow> \<exists>n. length ps = 4 * (n::nat)"
  by (elim insertE emptyE) presburger+

subsection \<open>Round generation\<close>

lemma length_rankPlayers: "length (rankPlayers lc t) = length (calculateStats t)"
  by (simp add: rankPlayers_def Let_def length_assignRanks length_sortBy)

lemma canStartNextRound_iff:
  "canStartNextRound t \<longleftrightarrow> rounds t = [] \<or> isRoundComplete (last (rounds t))"
  by (simp add: canStartNextRound_def getCurrentRound_def last_conv_nth)

lemma isRoundComplete_iff: "isRoundComplete r \<longleftrightarrow> (\<forall>m\<in>set (matches r). isMatchComplete m)"
  by (simp add: isRoundComplete_def list_all_iff)

lemma mexicanoLoop_error: "mexicanoLoop rs i matchId acc = Inl e \<Longrightarrow> e = TypeError"
proof (induction rs i matchId acc rule: mexicanoLoop.induct)
  case (1 rs i matchId acc)
  let ?g = "slice rs i (i + 4)"
  show ?case
  proof (cases "i < length rs \<and> (\<exists>g0 g3 g1 g2. elemAt ?g 0 = Some g0 \<and> elemAt ?g 3 = Some g3 \<and>
      elemAt ?g 1 = Some g1 \<and> elemAt ?g 2 = Some g2)")
    case True
    then obtain g0 g3 g1 g2 where lt: "i < length rs"
      and g: "elemAt ?g 0 = Some g0" "elemAt ?g 3 = Some g3" "elemAt ?g 1 = Some g1"
        "elemAt ?g 2 = Some g2" by blast
    have "mexicanoLoop rs i matchId acc = mexicanoLoop rs (i + 4) (matchId + 1)
        (acc @ [newMatch matchId (Some (name g0)) (Some (name g3)) (Some (name g1))
                  (Some (name g2))])"
      by (subst mexicanoLoop.simps) (simp only: lt if_True Let_def g option.case prod.case)
    with "1.prems" "1.IH" [OF lt refl _ refl refl refl refl refl refl, of g0 g3 g1 g2] g
    show ?thesis by simp
  next
    case False
    have "mexicanoLoop rs i matchId acc = (if i < length rs then Inl TypeError else Inr acc)"
      by (subst mexicanoLoop.simps) (use False in \<open>auto simp: Let_def split: option.splits\<close>)
    with "1.prems" show ?thesis by (simp split: if_splits)
  qed
qed

lemma generateNextRound_error: "generateNextRound lc t = Inl e \<Longrightarrow> e = TypeError"
  by (auto simp: generateNextRound_def createMexicanoPairings_def Let_def
      split: if_splits sum.splits dest: mexicanoLoop_error)

lemma generateNextRound_null_iff:
  "generateNextRound lc t = Inr None \<longleftrightarrow> \<not> canStartNextRound t"
  by (simp add: generateNextRound_def Let_def split: sum.splits)

lemma generateNextRound_first:
  "rounds t = [] \<Longrightarrow> generateNextRound lc t =
     Inr (Some \<lparr>roundNumber = 1, matches = renumber (maxId t) (createInitialPairings (players t))\<rparr>)"
  by (simp add: generateNextRound_def canStartNextRound_iff getCurrentRoundNumber_def)

lemma generateNextRound_later:
  "rounds t \<noteq> [] \<Longrightarrow> canStartNextRound t \<Longrightarrow> createMexicanoPairings (rankPlayers lc t) = Inr ms \<Longrightarrow>
   generateNextRound lc t =
     Inr (Some \<lparr>roundNumber = int (length (rounds t)) + 1, matches = renumber (maxId t) ms\<rparr>)"
  by (simp add: generateNextRound_def getCurrentRoundNumber_def)

lemma createMexicanoPairings_rankPlayers:
  assumes "distinct (players t)" "length (players t) = 4 * n" "''__proto__'' \<notin> set (players t)"
  shows "createMexicanoPairings (rankPlayers lc t) =
     Inr (map (quartet (map name (rankPlayers lc t)) 1 0) [0..<n])"
  using assms by (intro createMexicanoPairings_quartets)
    (simp add: length_rankPlayers length_calculateStats)

subsection \<open>The sample tournament\<close>

lemma samplePlayers_valid:
  "distinct samplePlayers" "length samplePlayers \<in> {8, 12, 16}"
  by (simp_all add: samplePlayers_def)

lemma sampleRound1_complete: "isRoundComplete sampleRound1"
  by (simp add: isRoundComplete_def isMatchComplete_def isValidScore_def sampleRound1_def
      newMatch_def)

lemma sampleRound2_incomplete:
  "\<not> isMatchComplete (newMatch 3 (Some ''F'') (Some ''D'') (Some ''G'') (Some ''A''))"
  by (simp add: isMatchComplete_def newMatch_def)

text \<open>
  The rounds of the sample tournament are the ones the engine generates, and an edit of
  round 1 that swaps the result of its first match replaces round 2 by a new pairing.
\<close>

lemma sample_generates_round1:
  "generateNextRound asciiCollation (sampleTournament\<lparr>rounds := []\<rparr>) =
     Inr (Some \<lparr>roundNumber = 1, matches =
       [newMatch 1 (Some ''A'') (Some ''D'') (Some ''B'') (Some ''C''),
        newMatch 2 (Some ''E'') (Some ''H'') (Some ''F'') (Some ''G'')]\<rparr>)"
  by code_simp

lemma sample_generates_round2:
  "generateNextRound asciiCollation (sampleTournament\<lparr>rounds := [sampleRound1]\<rparr>) = Inr (Some sampleRound2)"
  by code_simp

lemma sample_edit_result:
  "updateMatchScore asciiCollation 9 sampleTournament 1 1 10 15 =
     (None, sampleTournament\<lparr>rounds :=
        [\<lparr>roundNumber = 1, matches =
           [(newMatch 1 (Some ''A'') (Some ''D'') (Some ''B'') (Some ''C''))
              \<lparr>team1Score := JNum 10, team2Score := JNum 15\<rparr>,
            (newMatch 2 (Some ''E'') (Some ''H'') (Some ''F'') (Some ''G''))
              \<lparr>team1Score := JNum 5, team2Score := JNum 20\<rparr>]\<rparr>,
         \<lparr>roundNumber = 2, matches =
           [newMatch 3 (Some ''F'') (Some ''C'') (Some ''G'') (Some ''B''),
            newMatch 4 (Some ''A'') (Some ''H'') (Some ''D'') (Some ''E'')]\<rparr>],
        updatedAt := 9\<rparr>)"
  by code_simp

text \<open>
  With six players the second group is short: the entry-order pairing fills the missing
  slots with \<^verbatim>\<open>undefined\<close>, the Mexicano pairing throws. When it throws while a score edit
  regenerates a round, the score is already written and the later rounds are already gone.
\<close>

lemma six_players_initial:
  "createInitialPairings [''A'', ''B'', ''C'', ''D'', ''E'', ''F''] =
     [newMatch 1 (Some ''A'') (Some ''D'') (Some ''B'') (Some ''C''),
      newMatch 2 (Some ''E'') None (Some ''F'') None]"
  by code_simp

lemma six_players_edit:
  "updateMatchScore asciiCollation 9 (sampleTournament\<lparr>players := [''A'', ''B'', ''C'', ''D'', ''E'', ''F'']\<rparr>)
     1 1 10 15 =
   (Some TypeError,
    sampleTournament\<lparr>players := [''A'', ''B'', ''C'', ''D'', ''E'', ''F''], rounds :=
      [\<lparr>roundNumber = 1, matches =
         [(newMatch 1 (Some ''A'') (Some ''D'') (Some ''B'') (Some ''C''))
            \<lparr>team1Score := JNum 10, team2Score := JNum 15\<rparr>,
          (newMatch 2 (Some ''E'') (Some ''H'') (Some ''F'') (Some ''G''))
            \<lparr>team1Score := JNum 5, team2Score := JNum 20\<rparr>]\<rparr>]\<rparr>)"
  by code_simp

lemma six_players_mexicano:
  "generateNextRound asciiCollation (sampleTournament\<lparr>players := [''A'', ''B'', ''C'', ''D'', ''E'', ''F''],
     rounds := [sampleRound1]\<rparr>) = Inl TypeError"
  by code_simp

subsection \<open>Writing a score\<close>

lemma find_match_None: "find (\<lambda>m. match_id m = i) ms = None \<longleftrightarrow> i \<notin> match_id ` set ms"
  by (auto simp: find_None_iff)


lemma map_match_id_setScore: "map match_id (setScore i a b ms) = map match_id ms"
  by (induction ms) auto

lemma length_writeScore [simp]: "length (rounds (writeScore t ri i a b)) = length (rounds t)"
  by (simp add: writeScore_def Let_def)

lemma writeScore_fields [simp]:
  "players (writeScore t ri i a b) = players t"
  "tournament_name (writeScore t ri i a b) = tournament_name t"
  "description (writeScore t ri i a b) = description t"
  "tournamentDate (writeScore t ri i a b) = tournamentDate t"
  "createdAt (writeScore t ri i a b) = createdAt t"
  "updatedAt (writeScore t ri i a b) = updatedAt t"
  by (simp_all add: writeScore_def Let_def)

lemma writeScore_rounds_update:
  "(writeScore t ri i a b)\<lparr>rounds := rs\<rparr> = t\<lparr>rounds := rs\<rparr>"
  by (simp add: writeScore_def Let_def)

lemma ids_writeScore:
  "map (map match_id \<circ> matches) (rounds (writeScore t ri i a b)) =
   map (map match_id \<circ> matches) (rounds t)"
proof (cases "nat ri < length (rounds t)")
  case True
  then show ?thesis
    by (simp add: writeScore_def Let_def map_update map_match_id_setScore list_update_same_conv)
next
  case False
  then show ?thesis by (simp add: writeScore_def Let_def list_update_beyond)
qed

subsection \<open>The largest match id\<close>

lemma foldl_max_ge: "foldl (\<lambda>mx m. max mx (match_id m)) a ms \<ge> a"
  by (induction ms arbitrary: a) (auto intro: order_trans [OF max.cobounded1])

lemma foldl_max_bound: "m \<in> set ms \<Longrightarrow> match_id m \<le> foldl (\<lambda>mx m. max mx (match_id m)) a ms"
proof (induction ms arbitrary: a)
  case Nil
  then show ?case by simp
next
  case (Cons x xs)
  show ?case
  proof (cases "m = x")
    case True
    have "match_id x \<le> max a (match_id x)" by simp
    also have "\<dots> \<le> foldl (\<lambda>mx m. max mx (match_id m)) (max a (match_id x)) xs"
      by (rule foldl_max_ge)
    finally show ?thesis using True by simp
  next
    case False
    with Cons show ?thesis by simp
  qed
qed

lemma foldl_max_ids:
  "foldl (\<lambda>mx m. max mx (match_id m)) a ms = foldl max a (map match_id ms)"
  by (induction ms arbitrary: a) auto

lemma maxId_ids:
  "maxId t = foldl max 0 (concat (map (map match_id \<circ> matches) (rounds t)))"
  by (simp add: maxId_def foldl_max_ids map_concat comp_def)

lemma maxId_bound: "m \<in> set (concat (map matches (rounds t))) \<Longrightarrow> match_id m \<le> maxId t"
  unfolding maxId_def by (rule foldl_max_bound)

lemma maxId_nonneg: "0 \<le> maxId t"
  unfolding maxId_def by (rule foldl_max_ge)

lemma length_renumber [simp]: "length (renumber mx ms) = length ms"
  by (simp add: renumber_def)

lemma renumber_nth:
  "k < length ms \<Longrightarrow> renumber mx ms ! k = (ms ! k)\<lparr>match_id := mx + int k + 1\<rparr>"
  by (simp add: renumber_def)

lemma ids_renumber: "map match_id (renumber mx ms) = map (\<lambda>i. mx + int i + 1) [0..<length ms]"
  by (rule nth_equalityI) (simp_all add: renumber_nth)

subsection \<open>A score update that passes the checks\<close>

lemma updateMatchScore_ok_pre:
  assumes "fst (updateMatchScore lc now t r i a b) = None"
  shows "isValidScore a b \<and> 1 \<le> r \<and> r \<le> int (length (rounds t)) \<and>
   i \<in> match_id ` set (matches (rounds t ! nat (r - 1)))"
proof -
  have v: "isValidScore a b"
    using assms by (auto simp: updateMatchScore_def split: if_splits)
  have idx: "\<not> (r - 1 < 0 \<or> int (length (rounds t)) \<le> r - 1)"
    using assms v by (auto simp: updateMatchScore_def Let_def split: if_splits)
  have "find (\<lambda>m. match_id m = i) (matches (rounds t ! nat (r - 1))) \<noteq> None"
    using assms v idx by (auto simp: updateMatchScore_def Let_def split: option.splits)
  then have "i \<in> match_id ` set (matches (rounds t ! nat (r - 1)))"
    by (simp only: find_match_None) simp
  with v idx show ?thesis by arith
qed

lemma updateMatchScore_unfold:
  assumes "isValidScore a b" "1 \<le> r" "r \<le> int (length (rounds t))"
    "i \<in> match_id ` set (matches (rounds t ! nat (r - 1)))"
  shows "updateMatchScore lc now t r i a b = cascade lc now (writeScore t (r - 1) i a b) r"
proof -
  from assms(4) obtain x where f: "find (\<lambda>m. match_id m = i) (matches (rounds t ! nat (r - 1))) = Some x"
    by (cases "find (\<lambda>m. match_id m = i) (matches (rounds t ! nat (r - 1)))")
      (auto simp: find_match_None)
  have idx: "\<not> (r - 1 < 0 \<or> int (length (rounds t)) \<le> r - 1)" using assms(2,3) by arith
  show ?thesis
    using assms(1) idx f by (simp add: updateMatchScore_def Let_def)
qed

lemma cascade_last:
  "r = int (length (rounds t1)) \<Longrightarrow> cascade lc now t1 r = (None, t1\<lparr>updatedAt := now\<rparr>)"
  by (simp add: cascade_def Let_def getCurrentRoundNumber_def)

lemma nth_take_round: "1 \<le> r \<Longrightarrow> take (nat r) xs ! nat (r - 1) = xs ! nat (r - 1)"
  by (intro nth_take) arith

lemma cascade_incomplete:
  "1 \<le> r \<Longrightarrow> r < int (length (rounds t1)) \<Longrightarrow> \<not> isRoundComplete (rounds t1 ! nat (r - 1)) \<Longrightarrow>
   cascade lc now t1 r = (None, t1\<lparr>rounds := take (nat r) (rounds t1), updatedAt := now\<rparr>)"
  by (cases "rounds t1 = []")
    (simp_all add: cascade_def Let_def getCurrentRoundNumber_def nth_take_round)

lemma last_take_round:
  "1 \<le> r \<Longrightarrow> r \<le> int (length xs) \<Longrightarrow> last (take (nat r) xs) = xs ! nat (r - 1)"
proof -
  assume a: "1 \<le> r" "r \<le> int (length xs)"
  then have ne: "take (nat r) xs \<noteq> []" by auto
  have len: "length (take (nat r) xs) = nat r" using a by simp
  have "nat r - 1 = nat (r - 1)" using a by arith
  then show ?thesis
    using a by (simp add: last_conv_nth [OF ne] len nth_take_round)
qed

lemma cascade_complete:
  assumes "1 \<le> r" "r < int (length (rounds t1))" "isRoundComplete (rounds t1 ! nat (r - 1))"
  shows "generateNextRound lc (t1\<lparr>rounds := take (nat r) (rounds t1)\<rparr>) \<noteq> Inr None"
    and "generateNextRound lc (t1\<lparr>rounds := take (nat r) (rounds t1)\<rparr>) = Inr (Some nr) \<Longrightarrow>
      cascade lc now t1 r =
        (None, t1\<lparr>rounds := take (nat r) (rounds t1) @ [nr], updatedAt := now\<rparr>)"
    and "generateNextRound lc (t1\<lparr>rounds := take (nat r) (rounds t1)\<rparr>) = Inl e \<Longrightarrow>
      cascade lc now t1 r = (Some e, t1\<lparr>rounds := take (nat r) (rounds t1)\<rparr>)"
proof -
  from assms(1,2) have ne: "rounds t1 \<noteq> []" by auto
  have "canStartNextRound (t1\<lparr>rounds := take (nat r) (rounds t1)\<rparr>)"
    using assms by (simp add: canStartNextRound_iff last_take_round)
  then show "generateNextRound lc (t1\<lparr>rounds := take (nat r) (rounds t1)\<rparr>) \<noteq> Inr None"
    by (simp add: generateNextRound_null_iff)
  show "generateNextRound lc (t1\<lparr>rounds := take (nat r) (rounds t1)\<rparr>) = Inr (Some nr) \<Longrightarrow>
      cascade lc now t1 r =
        (None, t1\<lparr>rounds := take (nat r) (rounds t1) @ [nr], updatedAt := now\<rparr>)"
    using assms ne by (simp add: cascade_def Let_def getCurrentRoundNumber_def nth_take_round)
  show "generateNextRound lc (t1\<lparr>rounds := take (nat r) (rounds t1)\<rparr>) = Inl e \<Longrightarrow>
      cascade lc now t1 r = (Some e, t1\<lparr>rounds := take (nat r) (rounds t1)\<rparr>)"
    using assms ne by (simp add: cascade_def Let_def getCurrentRoundNumber_def nth_take_round)
qed

lemma generateNextRound_later_elim:
  assumes "rounds t \<noteq> []" "generateNextRound lc t = Inr (Some nr)"
  shows "\<exists>ms. createMexicanoPairings (rankPlayers lc t) = Inr ms \<and>
     nr = \<lparr>roundNumber = int (length (rounds t)) + 1, matches = renumber (maxId t) ms\<rparr>"
  using assms
  by (auto simp: generateNextRound_def getCurrentRoundNumber_def Let_def
      split: if_splits sum.splits)

lemma maxId_writeScore_take:
  "maxId (t\<lparr>rounds := take k (rounds (writeScore t ri i a b))\<rparr>) =
   maxId (t\<lparr>rounds := take k (rounds t)\<rparr>)"
proof -
  have "map (map match_id \<circ> matches) (take k (rounds (writeScore t ri i a b))) =
      map (map match_id \<circ> matches) (take k (rounds t))"
    by (simp only: take_map [symmetric] ids_writeScore)
  then show ?thesis by (simp add: maxId_ids)
qed


text \<open>What a successful update leaves, in terms of the tournament after the write.\<close>

lemma updateMatchScore_result:
  assumes ok: "updateMatchScore lc now t r i a b = (None, t')"
  defines "w \<equiv> writeScore t (r - 1) i a b"
  shows "t' = t\<lparr>rounds := rounds t', updatedAt := now\<rparr>"
    and "r = int (length (rounds t)) \<Longrightarrow> rounds t' = rounds w"
    and "r < int (length (rounds t)) \<Longrightarrow> \<not> isRoundComplete (rounds w ! nat (r - 1)) \<Longrightarrow>
           rounds t' = take (nat r) (rounds w)"
    and "r < int (length (rounds t)) \<Longrightarrow> isRoundComplete (rounds w ! nat (r - 1)) \<Longrightarrow>
           \<exists>nr ms. rounds t' = take (nat r) (rounds w) @ [nr] \<and>
             generateNextRound lc (t\<lparr>rounds := take (nat r) (rounds w)\<rparr>) = Inr (Some nr) \<and>
             createMexicanoPairings (rankPlayers lc (t\<lparr>rounds := take (nat r) (rounds w)\<rparr>)) = Inr ms \<and>
             nr = \<lparr>roundNumber = r + 1,
                   matches = renumber (maxId (t\<lparr>rounds := take (nat r) (rounds t)\<rparr>)) ms\<rparr>"
proof -
  from ok have pre: "isValidScore a b" "1 \<le> r" "r \<le> int (length (rounds t))"
    "i \<in> match_id ` set (matches (rounds t ! nat (r - 1)))"
    using updateMatchScore_ok_pre [of lc now t r i a b] by simp_all
  have c: "cascade lc now w r = (None, t')"
    using ok updateMatchScore_unfold [OF pre] by (simp add: w_def)
  have wl: "length (rounds w) = length (rounds t)" by (simp add: w_def)
  have wu: "w\<lparr>rounds := rs\<rparr> = t\<lparr>rounds := rs\<rparr>" for rs
    by (simp add: w_def writeScore_rounds_update)
  have wt: "w = t\<lparr>rounds := rounds w\<rparr>" using wu [of "rounds w"] by simp
  have last: "rounds t' = rounds w \<and> t' = t\<lparr>rounds := rounds t', updatedAt := now\<rparr>"
    if "r = int (length (rounds t))"
  proof -
    from that c cascade_last [of r w lc now] wl have "t' = w\<lparr>updatedAt := now\<rparr>" by simp
    then show ?thesis using wt by (metis Tournament.select_convs(5) Tournament.surjective Tournament.update_convs(5,7))
  qed
  have inc: "rounds t' = take (nat r) (rounds w) \<and> t' = t\<lparr>rounds := rounds t', updatedAt := now\<rparr>"
    if "r < int (length (rounds t))" "\<not> isRoundComplete (rounds w ! nat (r - 1))"
  proof -
    from that c cascade_incomplete [of r w lc now] wl pre(2)
    have "t' = w\<lparr>rounds := take (nat r) (rounds w), updatedAt := now\<rparr>" by simp
    then show ?thesis by (simp add: wu)
  qed
  have com: "(\<exists>nr ms. rounds t' = take (nat r) (rounds w) @ [nr] \<and>
             generateNextRound lc (t\<lparr>rounds := take (nat r) (rounds w)\<rparr>) = Inr (Some nr) \<and>
             createMexicanoPairings (rankPlayers lc (t\<lparr>rounds := take (nat r) (rounds w)\<rparr>)) = Inr ms \<and>
             nr = \<lparr>roundNumber = r + 1,
                   matches = renumber (maxId (t\<lparr>rounds := take (nat r) (rounds t)\<rparr>)) ms\<rparr>) \<and>
           t' = t\<lparr>rounds := rounds t', updatedAt := now\<rparr>"
    if lt: "r < int (length (rounds t))" and rc: "isRoundComplete (rounds w ! nat (r - 1))"
  proof -
    let ?t2 = "t\<lparr>rounds := take (nat r) (rounds w)\<rparr>"
    have lt': "r < int (length (rounds w))" using lt wl by simp
    note cc = cascade_complete [OF pre(2) lt' rc, unfolded wu]
    show ?thesis
    proof (cases "generateNextRound lc ?t2")
      case (Inl e)
      with cc(3) [where e = e and now = now and lc = lc] c show ?thesis by simp
    next
      case (Inr x)
      with cc(1) obtain nr where nr: "generateNextRound lc ?t2 = Inr (Some nr)" by (cases x) auto
      from cc(2) [OF nr, where now = now] c
      have t': "t' = t\<lparr>rounds := take (nat r) (rounds w) @ [nr], updatedAt := now\<rparr>" by simp
      have ne: "rounds ?t2 \<noteq> []" using pre(2) lt' by auto
      have len: "int (length (rounds ?t2)) + 1 = r + 1" using pre(2) lt' by simp
      from generateNextRound_later_elim [OF ne nr] obtain ms where
        ms: "createMexicanoPairings (rankPlayers lc ?t2) = Inr ms"
        "nr = \<lparr>roundNumber = int (length (rounds ?t2)) + 1, matches = renumber (maxId ?t2) ms\<rparr>"
        by blast
      have "nr = \<lparr>roundNumber = r + 1,
                   matches = renumber (maxId (t\<lparr>rounds := take (nat r) (rounds t)\<rparr>)) ms\<rparr>"
        using ms(2) unfolding len by (simp add: w_def maxId_writeScore_take)
      with t' nr ms(1) show ?thesis by simp
    qed
  qed
  from pre(3) have "r = int (length (rounds t)) \<or> r < int (length (rounds t))" by arith
  then show "t' = t\<lparr>rounds := rounds t', updatedAt := now\<rparr>"
    using last inc com by blast
  show "r = int (length (rounds t)) \<Longrightarrow> rounds t' = rounds w" using last by blast
  show "r < int (length (rounds t)) \<Longrightarrow> \<not> isRoundComplete (rounds w ! nat (r - 1)) \<Longrightarrow>
           rounds t' = take (nat r) (rounds w)" using inc by blast
  show "r < int (length (rounds t)) \<Longrightarrow> isRoundComplete (rounds w ! nat (r - 1)) \<Longrightarrow>
           \<exists>nr ms. rounds t' = take (nat r) (rounds w) @ [nr] \<and>
             generateNextRound lc (t\<lparr>rounds := take (nat r) (rounds w)\<rparr>) = Inr (Some nr) \<and>
             createMexicanoPairings (rankPlayers lc (t\<lparr>rounds := take (nat r) (rounds w)\<rparr>)) = Inr ms \<and>
             nr = \<lparr>roundNumber = r + 1,
                   matches = renumber (maxId (t\<lparr>rounds := take (nat r) (rounds t)\<rparr>)) ms\<rparr>"
    using com by blast
qed

lemma updateMatchScore_succeeds:
  assumes pre: "isValidScore a b" "1 \<le> r" "r \<le> int (length (rounds t))"
    "i \<in> match_id ` set (matches (rounds t ! nat (r - 1)))"
    and d: "distinct (players t)" and n: "length (players t) = 4 * n"
    and np: "''__proto__'' \<notin> set (players t)"
  shows "fst (updateMatchScore lc now t r i a b) = None"
proof -
  let ?w = "writeScore t (r - 1) i a b"
  have u: "updateMatchScore lc now t r i a b = cascade lc now ?w r"
    by (rule updateMatchScore_unfold [OF pre])
  show ?thesis
  proof (cases "r = int (length (rounds t))")
    case True
    then show ?thesis unfolding u by (simp add: cascade_last)
  next
    case False
    with pre(3) have lt: "r < int (length (rounds ?w))" by simp
    show ?thesis
    proof (cases "isRoundComplete (rounds ?w ! nat (r - 1))")
      case False
      then show ?thesis unfolding u by (simp add: cascade_incomplete [OF pre(2) lt])
    next
      case True
      let ?t2 = "?w\<lparr>rounds := take (nat r) (rounds ?w)\<rparr>"
      have l2: "length (rounds ?t2) = nat r" using pre(2) lt by simp
      have ne: "rounds ?t2 \<noteq> []"
      proof
        assume "rounds ?t2 = []"
        then have "length (rounds ?t2) = 0" by (simp only: list.size)
        with l2 pre(2) show False by arith
      qed
      have can: "canStartNextRound ?t2"
        using cascade_complete(1) [OF pre(2) lt True] by (simp add: generateNextRound_null_iff)
      have "createMexicanoPairings (rankPlayers lc ?t2) =
          Inr (map (quartet (map name (rankPlayers lc ?t2)) 1 0) [0..<n])"
        using d n np by (intro createMexicanoPairings_rankPlayers) simp_all
      from generateNextRound_later [OF ne can this] cascade_complete(2) [OF pre(2) lt True]
      show ?thesis unfolding u by simp
    qed
  qed
qed

lemma regenerated_round:
  assumes ok: "updateMatchScore lc now t r i a b = (None, t')"
    and lt: "r < int (length (rounds t))"
    and rc: "isRoundComplete (rounds t' ! nat (r - 1))"
  shows "\<exists>nr ms. rounds t' = take (nat r) (rounds (writeScore t (r - 1) i a b)) @ [nr] \<and>
     createMexicanoPairings (rankPlayers lc (t\<lparr>rounds := take (nat r) (rounds (writeScore t (r - 1) i a b))\<rparr>)) = Inr ms \<and>
     nr = \<lparr>roundNumber = r + 1,
           matches = renumber (maxId (t\<lparr>rounds := take (nat r) (rounds t)\<rparr>)) ms\<rparr>"
proof -
  let ?w = "writeScore t (r - 1) i a b"
  from ok have r1: "1 \<le> r" using updateMatchScore_ok_pre [of lc now t r i a b] by simp
  have idx: "nat (r - 1) < length (take (nat r) (rounds ?w))" using r1 lt by simp
  have "isRoundComplete (rounds ?w ! nat (r - 1))"
  proof (rule ccontr)
    assume "\<not> isRoundComplete (rounds ?w ! nat (r - 1))"
    moreover from updateMatchScore_result(3) [OF ok lt this]
    have "rounds t' ! nat (r - 1) = rounds ?w ! nat (r - 1)" using r1 by (simp add: nth_take_round)
    ultimately show False using rc by simp
  qed
  from updateMatchScore_result(4) [OF ok lt this] show ?thesis by blast
qed

lemma regenerated_ids:
  assumes ok: "updateMatchScore lc now t r i a b = (None, t')"
    and lt: "r < int (length (rounds t))"
    and rc: "isRoundComplete (rounds t' ! nat (r - 1))"
  shows "length (rounds t') = nat r + 1"
    and "butlast (rounds t') = take (nat r) (rounds (writeScore t (r - 1) i a b))"
    and "map match_id (matches (last (rounds t'))) =
      map (\<lambda>k. maxId (t\<lparr>rounds := take (nat r) (rounds t)\<rparr>) + int k + 1)
        [0..<length (matches (last (rounds t')))]"
proof -
  from regenerated_round [OF assms] obtain nr ms where
    r': "rounds t' = take (nat r) (rounds (writeScore t (r - 1) i a b)) @ [nr]"
    and nr: "nr = \<lparr>roundNumber = r + 1,
           matches = renumber (maxId (t\<lparr>rounds := take (nat r) (rounds t)\<rparr>)) ms\<rparr>"
    by blast
  from ok have r1: "1 \<le> r" using updateMatchScore_ok_pre [of lc now t r i a b] by simp
  show "length (rounds t') = nat r + 1" using r' lt r1 by simp
  show "butlast (rounds t') = take (nat r) (rounds (writeScore t (r - 1) i a b))"
    using r' by simp
  show "map match_id (matches (last (rounds t'))) =
      map (\<lambda>k. maxId (t\<lparr>rounds := take (nat r) (rounds t)\<rparr>) + int k + 1)
        [0..<length (matches (last (rounds t')))]"
    using r' nr by (simp add: ids_renumber)
qed

lemma regenerated_count:
  assumes ok: "updateMatchScore lc now t r i a b = (None, t')"
    and lt: "r < int (length (rounds t))"
    and rc: "isRoundComplete (rounds t' ! nat (r - 1))"
    and d: "distinct (players t)" and n: "length (players t) = 4 * n"
    and np: "''__proto__'' \<notin> set (players t)"
  shows "length (matches (last (rounds t'))) = n"
proof -
  from regenerated_round [OF ok lt rc] obtain nr ms where
    r': "rounds t' = take (nat r) (rounds (writeScore t (r - 1) i a b)) @ [nr]"
    and ms: "createMexicanoPairings (rankPlayers lc (t\<lparr>rounds := take (nat r) (rounds (writeScore t (r - 1) i a b))\<rparr>)) = Inr ms"
    and nr: "nr = \<lparr>roundNumber = r + 1,
           matches = renumber (maxId (t\<lparr>rounds := take (nat r) (rounds t)\<rparr>)) ms\<rparr>"
    by blast
  have "createMexicanoPairings (rankPlayers lc (t\<lparr>rounds := take (nat r) (rounds (writeScore t (r - 1) i a b))\<rparr>)) =
      Inr (map (quartet (map name (rankPlayers lc (t\<lparr>rounds := take (nat r) (rounds (writeScore t (r - 1) i a b))\<rparr>))) 1 0) [0..<n])"
    using d n np by (intro createMexicanoPairings_rankPlayers) simp_all
  with ms have "length ms = n" by auto
  with r' nr show ?thesis by simp
qed

lemma edited_round_kept:
  assumes ok: "updateMatchScore lc now t r i a b = (None, t')"
  shows "rounds t' ! nat (r - 1) = rounds (writeScore t (r - 1) i a b) ! nat (r - 1)"
proof -
  let ?w = "writeScore t (r - 1) i a b"
  from ok have pre: "1 \<le> r" "r \<le> int (length (rounds t))"
    using updateMatchScore_ok_pre [of lc now t r i a b] by simp_all
  have idx: "nat (r - 1) < length (take (nat r) (rounds ?w))" using pre by simp
  consider "r = int (length (rounds t))"
    | "r < int (length (rounds t))" "\<not> isRoundComplete (rounds ?w ! nat (r - 1))"
    | "r < int (length (rounds t))" "isRoundComplete (rounds ?w ! nat (r - 1))"
    using pre(2) by fastforce
  then show ?thesis
  proof cases
    case 1
    from updateMatchScore_result(2) [OF ok 1] show ?thesis by simp
  next
    case 2
    from updateMatchScore_result(3) [OF ok 2] pre(1) show ?thesis by (simp add: nth_take_round)
  next
    case 3
    from updateMatchScore_result(4) [OF ok 3] obtain nr where
      "rounds t' = take (nat r) (rounds ?w) @ [nr]" by blast
    then show ?thesis using idx pre(1) by (simp add: nth_append nth_take_round)
  qed
qed

subsection \<open>An edit of round 1 of the sample tournament\<close>

lemma sample_edit_pre:
  "isValidScore 10 15" "(1::int) \<le> 1" "1 \<le> int (length (rounds sampleTournament))"
  "1 \<in> match_id ` set (matches (rounds sampleTournament ! nat (1 - 1)))"
  "1 < int (length (rounds sampleTournament))"
  by (simp_all add: isValidScore_def sampleTournament_def sampleRound1_def newMatch_def)

lemma sample_players:
  "distinct (players sampleTournament)" "length (players sampleTournament) = 4 * 2"
  "''__proto__'' \<notin> set (players sampleTournament)"
  by (simp_all add: sampleTournament_def samplePlayers_def)

lemma sample_edit_ok:
  "updateMatchScore asciiCollation 9 sampleTournament 1 1 10 15 =
     (None, snd (updateMatchScore asciiCollation 9 sampleTournament 1 1 10 15))"
  using updateMatchScore_succeeds [OF sample_edit_pre(1-4) sample_players, of asciiCollation 9]
  by (simp add: prod_eq_iff)

lemma sample_edit_complete:
  "isRoundComplete (rounds (snd (updateMatchScore asciiCollation 9 sampleTournament 1 1 10 15)) ! nat (1 - 1))"
  unfolding edited_round_kept [OF sample_edit_ok]
  by (simp add: writeScore_def Let_def sampleTournament_def sampleRound1_def newMatch_def
      isRoundComplete_def isMatchComplete_def isValidScore_def)

lemma sample_maxId:
  "maxId sampleTournament = 4"
  "maxId (sampleTournament\<lparr>rounds := take (nat 1) (rounds sampleTournament)\<rparr>) = 2"
  "maxId (sampleTournament\<lparr>rounds := take (Suc 0) (rounds sampleTournament)\<rparr>) = 2"
  by (simp_all add: maxId_def sampleTournament_def sampleRound1_def sampleRound2_def newMatch_def)

lemma upt_two: "[0..<2] = [0, Suc 0]"
  by (simp add: numeral_2_eq_2)

subsection \<open>The statistics as sums of credits\<close>

lemma processMatch_credits:
  "processMatch stats m = (if isMatchComplete m then foldl applyCredit stats (credits m) else stats)"
  by (auto simp: processMatch_def isMatchComplete_def credits_def applyCredit_def scoreValue_def
      Let_def split: score.splits)

lemma foldl_processMatch_credits:
  "foldl processMatch stats ms =
   foldl applyCredit stats (concat (map credits (filter isMatchComplete ms)))"
  by (induction ms arbitrary: stats) (simp_all add: processMatch_credits)

lemma map_of_creditPlayer:
  "map_of (creditPlayer pts won stats q) p =
     (if propertyKey q = p then map_option (credit pts won) (map_of stats p) else map_of stats p)"
  by (auto simp: creditPlayer_def map_of_map_entry split: option.splits)

lemma map_of_applyCredit:
  "map_of (applyCredit stats c) p =
     (if propertyKey (fst c) = p then map_option (credit (fst (snd c)) (snd (snd c))) (map_of stats p)
      else map_of stats p)"
  by (simp add: applyCredit_def map_of_creditPlayer)

lemma map_of_foldl_applyCredit:
  "map_of (foldl applyCredit stats cs) p =
     map_option (\<lambda>s. foldl (\<lambda>s c. credit (fst c) (snd c) s) s
        (map snd (filter (\<lambda>c. propertyKey (fst c) = p) cs))) (map_of stats p)"
proof (induction cs arbitrary: stats)
  case Nil
  then show ?case by (simp add: option.map_ident)
next
  case (Cons c cs)
  show ?case
    by (simp add: Cons.IH map_of_applyCredit option.map_comp comp_def)
qed

lemma foldl_credit_fields:
  "name (foldl (\<lambda>s c. credit (fst c) (snd c) s) s cl) = name s"
  "totalPoints (foldl (\<lambda>s c. credit (fst c) (snd c) s) s cl) = totalPoints s + sum_list (map fst cl)"
  "gamesPlayed (foldl (\<lambda>s c. credit (fst c) (snd c) s) s cl) = gamesPlayed s + int (length cl)"
  "wins (foldl (\<lambda>s c. credit (fst c) (snd c) s) s cl) = wins s + int (length (filter snd cl))"
  "losses (foldl (\<lambda>s c. credit (fst c) (snd c) s) s cl) =
     losses s + int (length (filter (\<lambda>c. \<not> snd c) cl))"
  "pointsPerGame (foldl (\<lambda>s c. credit (fst c) (snd c) s) s cl) = pointsPerGame s"
  "winPercentage (foldl (\<lambda>s c. credit (fst c) (snd c) s) s cl) = winPercentage s"
  by (induction cl arbitrary: s) (simp_all add: credit_def)

lemma map_of_derived:
  "map_of (map (\<lambda>(k, s). (k, derived s)) stats) p = map_option derived (map_of stats p)"
  by (induction stats) auto

lemma map_of_calculateStats:
  "map_of (calculateStats t) p =
     (if p \<in> set (players t) \<and> p \<noteq> ''__proto__''
      then Some (derived (foldl (\<lambda>s c. credit (fst c) (snd c) s) (zeroStats p) (creditsOf t p)))
      else None)"
proof -
  have "foldl (\<lambda>stats r. foldl processMatch stats (matches r)) (initStats (players t)) (rounds t) =
      foldl applyCredit (initStats (players t)) (concat (map credits (completeMatches t)))"
    by (simp only: foldl_rounds_concat) (simp only: foldl_processMatch_credits completeMatches_def)
  then show ?thesis
    by (simp add: calculateStats_def Let_def map_of_derived map_of_foldl_applyCredit
        map_of_initStats creditsOf_def)
qed

lemma derived_fields:
  "name (derived s) = name s" "totalPoints (derived s) = totalPoints s"
  "gamesPlayed (derived s) = gamesPlayed s" "wins (derived s) = wins s"
  "losses (derived s) = losses s"
  "pointsPerGame (derived s) =
     (if gamesPlayed s > 0 then totalPoints s / of_int (gamesPlayed s) else pointsPerGame s)"
  "winPercentage (derived s) =
     (if gamesPlayed s > 0 then of_int (wins s) / of_int (gamesPlayed s) * 100
      else winPercentage s)"
  by (simp_all add: derived_def)

lemma sample_creditsOf:
  "creditsOf sampleTournament ''A'' = [(15, True)]"
  "creditsOf sampleTournament ''B'' = [(10, False)]"
  by (simp_all add: creditsOf_def completeMatches_def credits_def scoreValue_def propertyKey_def
      sampleTournament_def sampleRound1_def sampleRound2_def newMatch_def isMatchComplete_def
      isValidScore_def)

subsection \<open>Participants that are not declared players\<close>

lemma creditPlayer_key:
  "propertyKey q' = propertyKey q \<Longrightarrow> creditPlayer pts won stats q' = creditPlayer pts won stats q"
  by (simp add: creditPlayer_def split: option.splits)

lemma creditPlayer_undeclared:
  "propertyKey q \<notin> fst ` set stats \<Longrightarrow> creditPlayer pts won stats q = stats"
proof -
  assume "propertyKey q \<notin> fst ` set stats"
  then have "map_of stats (propertyKey q) = None"
    using map_of_eq_None_iff [of stats "propertyKey q"] by blast
  then show ?thesis by (simp add: creditPlayer_def)
qed

lemma creditPlayer_renamed:
  assumes "propertyKey q \<in> fst ` set stats \<Longrightarrow> propertyKey (f q) = propertyKey q"
    and "propertyKey q \<notin> fst ` set stats \<Longrightarrow> propertyKey (f q) \<notin> fst ` set stats"
  shows "creditPlayer pts won stats (f q) = creditPlayer pts won stats q"
proof (cases "propertyKey q \<in> fst ` set stats")
  case True
  with assms(1) show ?thesis by (intro creditPlayer_key)
next
  case False
  with assms(2) show ?thesis by (simp add: creditPlayer_undeclared)
qed

lemma keys_creditPlayer: "fst ` set (creditPlayer pts won stats q) = fst ` set stats"
proof -
  have "set (map fst (creditPlayer pts won stats q)) = set (map fst stats)"
    by (simp only: map_fst_creditPlayer)
  then show ?thesis by (simp only: set_map)
qed

lemma renameMatch_fields:
  "team1Player1 (renameMatch f m) = f (team1Player1 m)"
  "team1Player2 (renameMatch f m) = f (team1Player2 m)"
  "team2Player1 (renameMatch f m) = f (team2Player1 m)"
  "team2Player2 (renameMatch f m) = f (team2Player2 m)"
  "team1Score (renameMatch f m) = team1Score m"
  "team2Score (renameMatch f m) = team2Score m"
  "match_id (renameMatch f m) = match_id m"
  by (simp_all add: renameMatch_def)

lemma processMatch_complete:
  assumes "team1Score m = JNum s1" "team2Score m = JNum s2" "isMatchComplete m"
  shows "processMatch stats m =
     creditPlayer s2 (\<not> s1 > s2) (creditPlayer s2 (\<not> s1 > s2)
       (creditPlayer s1 (s1 > s2) (creditPlayer s1 (s1 > s2) stats (team1Player1 m))
          (team1Player2 m)) (team2Player1 m)) (team2Player2 m)"
  using assms by (simp add: processMatch_def Let_def)

lemma processMatch_renamed:
  assumes a: "\<And>q. propertyKey q \<in> fst ` set stats \<Longrightarrow> propertyKey (f q) = propertyKey q"
    and b: "\<And>q. propertyKey q \<notin> fst ` set stats \<Longrightarrow> propertyKey (f q) \<notin> fst ` set stats"
  shows "processMatch stats (renameMatch f m) = processMatch stats m"
proof (cases "isMatchComplete m")
  case False
  then have "\<not> isMatchComplete (renameMatch f m)"
    by (simp add: isMatchComplete_def renameMatch_fields)
  with False show ?thesis by (simp add: processMatch_def)
next
  case True
  then have c': "isMatchComplete (renameMatch f m)"
    by (simp add: isMatchComplete_def renameMatch_fields)
  from True obtain s1 s2 where sc: "team1Score m = JNum s1" "team2Score m = JNum s2"
    by (auto simp: isMatchComplete_def split: score.splits)
  have sc': "team1Score (renameMatch f m) = JNum s1" "team2Score (renameMatch f m) = JNum s2"
    using sc by (simp_all add: renameMatch_fields)
  have step: "creditPlayer pts won st (f q) = creditPlayer pts won st q"
    if "fst ` set st = fst ` set stats" for pts won st q
  proof (rule creditPlayer_renamed)
    show "propertyKey q \<in> fst ` set st \<Longrightarrow> propertyKey (f q) = propertyKey q"
      using a that by simp
    show "propertyKey q \<notin> fst ` set st \<Longrightarrow> propertyKey (f q) \<notin> fst ` set st"
      using b that by simp
  qed
  let ?w1 = "s1 > s2" and ?w2 = "\<not> s1 > s2"
  let ?a = "creditPlayer s1 ?w1 stats (team1Player1 m)"
  let ?b = "creditPlayer s1 ?w1 ?a (team1Player2 m)"
  let ?c = "creditPlayer s2 ?w2 ?b (team2Player1 m)"
  have ka: "fst ` set ?a = fst ` set stats" by (rule keys_creditPlayer)
  have kb: "fst ` set ?b = fst ` set stats" by (simp only: keys_creditPlayer)
  have kc: "fst ` set ?c = fst ` set stats" by (simp only: keys_creditPlayer)
  have "processMatch stats (renameMatch f m) =
     creditPlayer s2 ?w2 (creditPlayer s2 ?w2
       (creditPlayer s1 ?w1 (creditPlayer s1 ?w1 stats (f (team1Player1 m)))
          (f (team1Player2 m))) (f (team2Player1 m))) (f (team2Player2 m))"
    by (simp only: processMatch_complete [OF sc' c'] renameMatch_fields)
  also have "\<dots> = creditPlayer s2 ?w2 ?c (team2Player2 m)"
    by (simp only: step [OF refl] step [OF ka] step [OF kb] step [OF kc])
  also have "\<dots> = processMatch stats m"
    by (simp only: processMatch_complete [OF sc True])
  finally show ?thesis .
qed

lemma keys_processMatch: "fst ` set (processMatch stats m) = fst ` set stats"
proof -
  have "set (map fst (processMatch stats m)) = set (map fst stats)"
    by (simp only: map_fst_processMatch)
  then show ?thesis by (simp only: set_map)
qed

lemma foldl_processMatch_renamed:
  assumes "\<And>q. propertyKey q \<in> fst ` set stats \<Longrightarrow> propertyKey (f q) = propertyKey q"
    and "\<And>q. propertyKey q \<notin> fst ` set stats \<Longrightarrow> propertyKey (f q) \<notin> fst ` set stats"
  shows "foldl processMatch stats (map (renameMatch f) ms) = foldl processMatch stats ms"
  using assms
proof (induction ms arbitrary: stats)
  case Nil
  then show ?case by simp
next
  case (Cons m ms)
  have "processMatch stats (renameMatch f m) = processMatch stats m"
    using Cons.prems by (intro processMatch_renamed) blast+
  moreover have "foldl processMatch (processMatch stats m) (map (renameMatch f) ms) =
      foldl processMatch (processMatch stats m) ms"
    using Cons.prems by (intro Cons.IH) (simp_all add: keys_processMatch)
  ultimately show ?case by simp
qed

lemma matches_renameSlots:
  "concat (map matches (rounds (renameSlots f t))) =
   map (renameMatch f) (concat (map matches (rounds t)))"
  by (simp add: renameSlots_def map_concat comp_def)

lemma players_renameSlots [simp]: "players (renameSlots f t) = players t"
  by (simp add: renameSlots_def)

lemma calculateStats_name:
  assumes "(k, s) \<in> set (calculateStats t)"
  shows "name s = k"
proof -
  have d: "distinct (map fst (calculateStats t))"
    by (simp add: map_fst_calculateStats distinct_initStats)
  from assms have m: "map_of (calculateStats t) k = Some s"
    using d by simp
  then have "k \<in> set (players t) \<and> k \<noteq> ''__proto__''"
    by (simp add: map_of_calculateStats split: if_splits)
  with m show ?thesis
    by (auto simp: map_of_calculateStats derived_fields foldl_credit_fields zeroStats_def)
qed

subsection \<open>The ranked list\<close>

lemma rankedBefore_truncate:
  "rankedBefore lc (PlayerStats.truncate a) (PlayerStats.truncate b) = rankedBefore lc a b"
  by (simp add: rankedBefore_def PlayerStats.truncate_def)

lemma truncate_fields:
  "totalPoints (PlayerStats.truncate a) = totalPoints a"
  "wins (PlayerStats.truncate a) = wins a"
  by (simp_all add: PlayerStats.truncate_def)

lemma map_truncate_assignRanks: "map PlayerStats.truncate (assignRanks [] ps) = ps"
  by (rule nth_equalityI) (use assignRanks_nth [of _ ps "[]"] in \<open>simp_all add: length_assignRanks\<close>)

lemma rankPlayers_sorted_stats:
  "map PlayerStats.truncate (rankPlayers lc t) = sortBy (compareStats lc) (map snd (calculateStats t))"
  by (simp add: rankPlayers_def Let_def map_truncate_assignRanks)

lemma rankPlayers_rank:
  assumes "i < length (rankPlayers lc t)"
  shows "rank (rankPlayers lc t ! i) =
     (if i = 0 then 1
      else if totalPoints (rankPlayers lc t ! i) = totalPoints (rankPlayers lc t ! (i - 1)) \<and>
              wins (rankPlayers lc t ! i) = wins (rankPlayers lc t ! (i - 1))
           then rank (rankPlayers lc t ! (i - 1))
           else int i + 1)"
proof -
  let ?ps = "sortBy (compareStats lc) (map snd (calculateStats t))"
  have rp: "rankPlayers lc t = assignRanks [] ?ps" by (simp add: rankPlayers_def Let_def)
  from assms have i: "i < length ?ps" by (simp add: rp length_assignRanks)
  from assignRanks_nth [OF i, of "[]"]
  have tr: "PlayerStats.truncate (rankPlayers lc t ! i) = ?ps ! i"
    and rk: "rank (rankPlayers lc t ! i) =
     (if i = 0 then 1
      else if totalPoints (?ps ! i) = totalPoints (rankPlayers lc t ! (i - 1)) \<and>
              wins (?ps ! i) = wins (rankPlayers lc t ! (i - 1))
           then rank (rankPlayers lc t ! (i - 1))
           else int i + 1)"
    by (simp_all add: rp)
  have "totalPoints (?ps ! i) = totalPoints (rankPlayers lc t ! i)"
    "wins (?ps ! i) = wins (rankPlayers lc t ! i)"
    using truncate_fields [of "rankPlayers lc t ! i"] by (simp_all only: tr)
  with rk show ?thesis by simp
qed

lemma sorted_wrt_unique:
  assumes "sorted_wrt R xs" "sorted_wrt R ys" "mset xs = mset ys"
    and "\<And>a b. a \<in> set xs \<Longrightarrow> b \<in> set xs \<Longrightarrow> R a b \<Longrightarrow> R b a \<Longrightarrow> a = b"
  shows "xs = ys"
  using assms
proof (induction xs arbitrary: ys)
  case Nil
  then show ?case by simp
next
  case (Cons x xs)
  from Cons.prems(3) obtain y ys' where ys: "ys = y # ys'"
    by (cases ys) auto
  have sets: "set (x # xs) = set (y # ys')"
    using mset_eq_setD [OF Cons.prems(3)] ys by simp
  have sx: "\<forall>z\<in>set xs. R x z" and sy: "\<forall>z\<in>set ys'. R y z"
    using Cons.prems(1,2) ys by simp_all
  have xy: "x = y"
  proof (rule ccontr)
    assume ne: "x \<noteq> y"
    have "x \<in> set (y # ys')" unfolding sets [symmetric] by simp
    with ne have x': "x \<in> set ys'" by simp
    have "y \<in> set (x # xs)" unfolding sets by simp
    with ne have y': "y \<in> set xs" by simp
    from x' sy have "R y x" by blast
    moreover from y' sx have "R x y" by blast
    ultimately have "x = y" using y' by (intro Cons.prems(4)) simp_all
    with ne show False by contradiction
  qed
  with Cons.prems(3) ys have m: "mset xs = mset ys'" by simp
  have s1: "sorted_wrt R xs" using Cons.prems(1) by simp
  have s2: "sorted_wrt R ys'" using Cons.prems(2) ys by simp
  have "xs = ys'"
  proof (rule Cons.IH [OF s1 s2 m])
    fix a b assume "a \<in> set xs" "b \<in> set xs" "R a b" "R b a"
    then show "a = b" by (intro Cons.prems(4)) simp_all
  qed
  with xy ys show ?case by simp
qed

lemma rankedBefore_antisym:
  assumes "separatesNames lc" "rankedBefore lc a b" "rankedBefore lc b a"
  shows "name a = name b"
proof -
  from assms(2,3) have "lc (name a) (name b) \<le> 0 \<and> lc (name b) (name a) \<le> 0"
    unfolding rankedBefore_def by (elim disjE conjE) auto
  with assms(1) show ?thesis unfolding separatesNames_def by blast
qed

lemma calculateStats_same_name:
  assumes "a \<in> snd ` set (calculateStats t)" "b \<in> snd ` set (calculateStats t)" "name a = name b"
  shows "a = b"
proof -
  from assms obtain k k' where k: "(k, a) \<in> set (calculateStats t)" "(k', b) \<in> set (calculateStats t)"
    by auto
  then have "k = name a" "k' = name b" using calculateStats_name by auto
  with assms(3) k have ka: "(k, a) \<in> set (calculateStats t)" and kb: "(k, b) \<in> set (calculateStats t)"
    by auto
  have d: "distinct (map fst (calculateStats t))"
    by (simp add: map_fst_calculateStats distinct_initStats)
  show ?thesis by (rule eq_key_imp_eq_value [OF d ka kb])
qed

lemma rankPlayers_only_order:
  assumes tp: "totalPreorder lc" and sep: "separatesNames lc"
    and "mset ys = mset (map snd (calculateStats t))" "sorted_wrt (rankedBefore lc) ys"
  shows "ys = map PlayerStats.truncate (rankPlayers lc t)"
proof -
  let ?xs = "sortBy (compareStats lc) (map snd (calculateStats t))"
  have "?xs = ys"
  proof (rule sorted_wrt_unique [where R = "rankedBefore lc"])
    show "sorted_wrt (rankedBefore lc) ?xs" by (rule sorted_sortBy [OF tp])
    show "sorted_wrt (rankedBefore lc) ys" by (rule assms(4))
    show "mset ?xs = mset ys" by (simp add: mset_sortBy assms(3))
    fix a b assume "a \<in> set ?xs" "b \<in> set ?xs" "rankedBefore lc a b" "rankedBefore lc b a"
    moreover have "set ?xs = snd ` set (calculateStats t)"
      using mset_eq_setD [OF mset_sortBy, of "compareStats lc" "map snd (calculateStats t)"] by simp
    ultimately show "a = b"
      using rankedBefore_antisym [OF sep, of a b] calculateStats_same_name [of a t b] by blast
  qed
  then show ?thesis by (simp add: rankPlayers_sorted_stats)
qed

text \<open>
  The example of the repository's rules document: Bob and Carol have the same points and
  wins, so they share rank 2 although their points per game differ, and Dave has rank 4.
\<close>

lemma podium_order:
  "map name (sortBy (compareStats asciiCollation) (rev podium)) = [''Alice'', ''Bob'', ''Carol'', ''Dave'']"
  by code_simp

lemma podium_ranks: "map rank (assignRanks [] (sortBy (compareStats asciiCollation) (rev podium))) = [1, 2, 2, 4]"
  by code_simp

lemma sample_ranking:
  "map name (rankPlayers asciiCollation sampleTournament) = [''F'', ''G'', ''A'', ''D'', ''B'', ''C'', ''E'', ''H'']"
  "map rank (rankPlayers asciiCollation sampleTournament) = [1, 1, 3, 3, 5, 5, 7, 7]"
  by code_simp+

lemma sample_ranked_length: "length (rankPlayers asciiCollation sampleTournament) = 8"
  using length_calculateStats [OF sample_players(1,3)]
  by (simp add: length_rankPlayers sampleTournament_def samplePlayers_def)

text \<open>
  A player called \<^verbatim>\<open>__proto__\<close> has no entry: seven entries for eight players, and a Mexicano
  pairing whose second group is short.
\<close>

lemma proto_players:
  "distinct (players protoTournament)" "length (players protoTournament) = 8"
  "''__proto__'' \<in> set (players protoTournament)"
  by (simp_all add: protoTournament_def)

lemma proto_round_complete: "isRoundComplete (last (rounds protoTournament))"
  by (simp add: protoTournament_def isRoundComplete_def isMatchComplete_def isValidScore_def
      newMatch_def)

lemma proto_keys:
  "map fst (calculateStats protoTournament) = [''A'', ''B'', ''C'', ''D'', ''E'', ''F'', ''G'']"
  by code_simp

lemma proto_stats:
  "map (\<lambda>(k, s). (k, totalPoints s, gamesPlayed s, wins s)) (calculateStats protoTournament) =
     [(''A'', 15, 1, 1), (''B'', 10, 1, 0), (''C'', 10, 1, 0), (''D'', 15, 1, 1),
      (''E'', 5, 1, 0), (''F'', 20, 1, 1), (''G'', 20, 1, 1)]"
  by code_simp

lemma proto_ranking:
  "map name (rankPlayers asciiCollation protoTournament) =
     [''F'', ''G'', ''A'', ''D'', ''B'', ''C'', ''E'']"
  by code_simp

lemma proto_next_round: "generateNextRound asciiCollation protoTournament = Inl TypeError"
  by code_simp

lemma mixedCase_ranking:
  "map name (rankPlayers asciiCollation mixedCaseTournament) =
     [''alice'', ''Bob'', ''carol'', ''Dave'', ''erin'', ''Frank'', ''grace'', ''Heidi'']"
  by code_simp

lemma mixedCase_not_by_code:
  "\<not> sorted_wrt (rankedBefore caseSensitiveOrder) (rankPlayers asciiCollation mixedCaseTournament)"
  by code_simp

section \<open>Score validation: properties\<close>

lemma half_not_int: "(25 / 2 :: rat) \<notin> \<int>"
proof
  assume "(25 / 2 :: rat) \<in> \<int>"
  then obtain k :: int where k: "(25 / 2 :: rat) = of_int k" by (auto elim: Ints_cases)
  then have "(of_int (2 * k) :: rat) = of_int 25" by simp
  then have "2 * k = 25" by (simp only: of_int_eq_iff)
  then show False by presburger
qed

text \<open>
  C6, as stated, fails: the function makes no integrality test, so the pair
  \<open>(12.5, 12.5)\<close> is accepted although neither argument is an integer.
\<close>

theorem isValidScore_half_counterexample:
  "isValidScore (25 / 2) (25 / 2) \<and> (25 / 2 :: rat) \<notin> \<int>"
  using half_not_int by (simp add: isValidScore_def)

text \<open>
  C6, amended: on integer arguments \<open>isValidScore\<close> is true exactly when both are at least 0
  and their sum is 25. The function makes no test that its arguments are integers, and it
  accepts the pair \<open>(12.5, 12.5)\<close>. \<open>isValidScore 15 10\<close> holds while \<open>isValidScore 13 13\<close> and
  \<open>isValidScore (-1) 26\<close> do not.
\<close>

theorem isValidScore_iff:
  "(isValidScore (of_int i) (of_int j) \<longleftrightarrow> 0 \<le> i \<and> 0 \<le> j \<and> i + j = 25) \<and>
   isValidScore (25 / 2) (25 / 2) \<and>
   isValidScore 15 10 \<and> \<not> isValidScore 13 13 \<and> \<not> isValidScore (- 1) 26"
proof -
  have "(of_int i + of_int j = (25::rat)) = (i + j = 25)"
    by (metis of_int_add of_int_eq_iff of_int_numeral)
  then show ?thesis by (simp add: isValidScore_def)
qed

section \<open>Rejected score updates\<close>



section \<open>The edit window\<close>

text \<open>
  C9, as stated, fails: \<open>updateMatchScore\<close> never reads the clock against the tournament
  date. Three days after the tournament date \<open>canEdit\<close> is false, yet the update of a match
  of the sample tournament succeeds and changes the tournament.
\<close>

theorem updateMatchScore_outside_window_counterexample:
  "\<not> canEdit sampleTournament (3 * msPerDay) \<and>
   fst (updateMatchScore asciiCollation (3 * msPerDay) sampleTournament 2 3 15 10) = None \<and>
   snd (updateMatchScore asciiCollation (3 * msPerDay) sampleTournament 2 3 15 10) \<noteq> sampleTournament"
  by (simp add: canEdit_def startOfDay_def msPerDay_def sampleTournament_def sampleRound1_def
      sampleRound2_def newMatch_def updateMatchScore_def isValidScore_def
      getCurrentRoundNumber_def cascade_def writeScore_def Let_def)

text \<open>
  C9, amended: \<open>canEdit\<close> is false from the start of the second day after the tournament
  date on, but \<open>updateMatchScore\<close> does not consult the edit window: the same call made at
  two different times, one outside the window and one inside it, throws the same error or
  succeeds alike, and leaves the same tournament up to the \<open>updatedAt\<close> stamp.
\<close>

theorem updateMatchScore_ignores_edit_window:
  "(now \<ge> startOfDay (tournamentDate t) + 2 * msPerDay \<longrightarrow> \<not> canEdit t now) \<and>
   fst (updateMatchScore lc now t roundNum matchId score1 score2) =
     fst (updateMatchScore lc now' t roundNum matchId score1 score2) \<and>
   (snd (updateMatchScore lc now t roundNum matchId score1 score2))\<lparr>updatedAt := u\<rparr> =
     (snd (updateMatchScore lc now' t roundNum matchId score1 score2))\<lparr>updatedAt := u\<rparr>"
proof -
  have a: "now \<ge> startOfDay (tournamentDate t) + 2 * msPerDay \<longrightarrow> \<not> canEdit t now"
    by (simp add: canEdit_def Let_def)
  have b: "fst (updateMatchScore lc now t roundNum matchId score1 score2) =
      fst (updateMatchScore lc now' t roundNum matchId score1 score2)"
    "(snd (updateMatchScore lc now t roundNum matchId score1 score2))\<lparr>updatedAt := u\<rparr> =
      (snd (updateMatchScore lc now' t roundNum matchId score1 score2))\<lparr>updatedAt := u\<rparr>"
    by (simp_all add: updateMatchScore_def cascade_def Let_def split: option.splits sum.splits)
  from a b show ?thesis by - (intro conjI; assumption)
qed

theorem updateMatchScore_ignores_edit_window_witness:
  "(3 * msPerDay \<ge> startOfDay (tournamentDate sampleTournament) + 2 * msPerDay) \<and>
   \<not> canEdit sampleTournament (3 * msPerDay) \<and>
   canEdit sampleTournament 9 \<and>
   fst (updateMatchScore asciiCollation 9 sampleTournament 1 1 10 15) = None \<and>
   fst (updateMatchScore asciiCollation (3 * msPerDay) sampleTournament 1 1 10 15) = None \<and>
   (snd (updateMatchScore asciiCollation (3 * msPerDay) sampleTournament 1 1 10 15))
       \<lparr>updatedAt := 0\<rparr> =
     (snd (updateMatchScore asciiCollation 9 sampleTournament 1 1 10 15))\<lparr>updatedAt := 0\<rparr>"
proof -
  have w: "3 * msPerDay \<ge> startOfDay (tournamentDate sampleTournament) + 2 * msPerDay"
    by (simp add: startOfDay_def msPerDay_def sampleTournament_def)
  have e: "canEdit sampleTournament 9"
    by (simp add: canEdit_def startOfDay_def msPerDay_def sampleTournament_def)
  have ok: "fst (updateMatchScore asciiCollation 9 sampleTournament 1 1 10 15) = None"
    using sample_edit_ok by (metis fst_conv)
  show ?thesis
    using w e ok
      updateMatchScore_ignores_edit_window
        [of sampleTournament "3 * msPerDay" asciiCollation 1 1 10 15 9 0]
    by simp
qed

section \<open>Pairing in groups of four\<close>

text \<open>
  C3: for a sequence of 8, 12 or 16 distinct players, \<open>createInitialPairings\<close> and
  \<open>createMexicanoPairings\<close> (on ranked players that carry these names in this order) both
  return one match for each consecutive group of four positions, \<open>n / 4\<close> in all, with the
  first and fourth of the group as team 1 and the second and third as team 2; each match has
  four different players and every player is in exactly one match.
\<close>

theorem pairings_in_fours:
  assumes "distinct ps" and "length ps \<in> {8, 12, 16}"
  shows "pairedInFours ps (createInitialPairings ps) \<and>
         (\<forall>rs. map name rs = ps \<longrightarrow>
            (\<exists>ms. createMexicanoPairings rs = Inr ms \<and> pairedInFours ps ms))"
proof -
  from assms(2) obtain n where n: "length ps = 4 * n" using valid_count by blast
  have a: "pairedInFours ps (createInitialPairings ps)"
    using pairedInFours_quartets [OF assms(1) n] by (simp add: createInitialPairings_quartets [OF n])
  have b: "\<exists>ms. createMexicanoPairings rs = Inr ms \<and> pairedInFours ps ms" if "map name rs = ps" for rs
  proof -
    from that n have "length rs = 4 * n" by (metis length_map)
    from createMexicanoPairings_quartets [OF this] that
    show ?thesis using pairedInFours_quartets [OF assms(1) n] by simp
  qed
  from a b show ?thesis by blast
qed

theorem pairings_in_fours_witness:
  "distinct samplePlayers \<and> length samplePlayers \<in> {8, 12, 16} \<and>
   pairedInFours samplePlayers (createInitialPairings samplePlayers) \<and>
   map name (map (\<lambda>p. withRank (zeroStats p) 1) samplePlayers) = samplePlayers \<and>
   (\<exists>ms. createMexicanoPairings (map (\<lambda>p. withRank (zeroStats p) 1) samplePlayers) = Inr ms \<and>
      pairedInFours samplePlayers ms)"
proof -
  have "map name (map (\<lambda>p. withRank (zeroStats p) 1) samplePlayers) = samplePlayers"
    by (simp add: withRank_def zeroStats_def comp_def)
  then show ?thesis
    using samplePlayers_valid pairings_in_fours [OF samplePlayers_valid] by blast
qed

section \<open>When the next round can be generated\<close>

text \<open>
  \<open>generateNextRound\<close> returns \<^verbatim>\<open>null\<close>, and \<open>addNextRound\<close> throws, exactly when there is a
  last round and it has an incomplete match. With no rounds, or with a complete last round,
  a tournament of 8, 12 or 16 distinct players none of whom is called \<^verbatim>\<open>__proto__\<close> gets a round
  whose number is the number of existing rounds plus one.
\<close>

lemma generateNextRound_refuses_iff:
  "(generateNextRound lc t = Inr None \<longleftrightarrow>
      rounds t \<noteq> [] \<and> (\<exists>m\<in>set (matches (last (rounds t))). \<not> isMatchComplete m)) \<and>
   (fst (addNextRound lc now t) = Some CannotStartNextRound \<longleftrightarrow>
      generateNextRound lc t = Inr None)"
proof -
  have a: "generateNextRound lc t = Inr None \<longleftrightarrow>
      rounds t \<noteq> [] \<and> (\<exists>m\<in>set (matches (last (rounds t))). \<not> isMatchComplete m)"
    by (auto simp: generateNextRound_null_iff canStartNextRound_iff isRoundComplete_iff)
  have b: "fst (addNextRound lc now t) = Some CannotStartNextRound \<longleftrightarrow>
      generateNextRound lc t = Inr None"
    by (auto simp: addNextRound_def split: sum.splits option.splits dest: generateNextRound_error)
  from a b show ?thesis by blast
qed

lemma generateNextRound_succeeds:
  assumes d: "distinct (players t)" and l: "length (players t) \<in> {8, 12, 16}"
    and np: "''__proto__'' \<notin> set (players t)"
    and ok: "rounds t = [] \<or> isRoundComplete (last (rounds t))"
  shows "\<exists>r. generateNextRound lc t = Inr (Some r) \<and>
           roundNumber r = int (length (rounds t)) + 1 \<and>
           addNextRound lc now t = (None, t\<lparr>rounds := rounds t @ [r], updatedAt := now\<rparr>)"
proof (cases "rounds t = []")
  case True
  then show ?thesis by (simp add: generateNextRound_first addNextRound_def)
next
  case False
  with ok have can: "canStartNextRound t"
    by (simp add: canStartNextRound_iff)
  from l obtain n where n: "length (players t) = 4 * n" using valid_count by blast
  from generateNextRound_later [OF False can createMexicanoPairings_rankPlayers [OF d n np]]
  show ?thesis by (simp add: addNextRound_def)
qed

lemma sample_next_round:
  "generateNextRound asciiCollation sampleTournament = Inr None"
  "fst (addNextRound asciiCollation 5 sampleTournament) = Some CannotStartNextRound"
  "\<exists>r. generateNextRound asciiCollation (sampleTournament\<lparr>rounds := [sampleRound1]\<rparr>) =
         Inr (Some r) \<and> roundNumber r = 2"
  by (simp_all add: sample_generates_round2 sampleRound2_def)
    (simp_all add: generateNextRound_refuses_iff sampleTournament_def sampleRound2_def
      sampleRound2_incomplete)

text \<open>
  With seven ranked players the second group of the Mexicano pairing has three members, and
  reading the name of the fourth throws.
\<close>

lemma createMexicanoPairings_seven:
  assumes "length rs = 7"
  shows "createMexicanoPairings rs = Inl TypeError"
proof -
  have g: "elemAt (slice rs 0 (0 + 4)) 0 = Some (rs ! 0)"
          "elemAt (slice rs 0 (0 + 4)) 1 = Some (rs ! 1)"
          "elemAt (slice rs 0 (0 + 4)) 2 = Some (rs ! 2)"
          "elemAt (slice rs 0 (0 + 4)) 3 = Some (rs ! 3)"
    using assms elemAt_slice [of 0 rs] by simp_all
  have lt: "0 < length rs" using assms by simp
  have "mexicanoLoop rs 0 1 [] = mexicanoLoop rs (0 + 4) (1 + 1)
      ([] @ [newMatch 1 (Some (name (rs ! 0))) (Some (name (rs ! 3)))
               (Some (name (rs ! 1))) (Some (name (rs ! 2)))])"
    by (subst mexicanoLoop.simps) (simp only: lt if_True Let_def g option.case prod.case)
  also have "\<dots> = Inl TypeError"
    using assms by (intro mexicanoLoop_short) simp_all
  finally show ?thesis by (simp only: createMexicanoPairings_def)
qed

lemma proto_ranked_length: "length (rankPlayers lc protoTournament) = 7"
proof -
  have "length (calculateStats protoTournament) = length (map fst (calculateStats protoTournament))"
    by simp
  also have "\<dots> = 7" by (simp only: proto_keys) simp
  finally show ?thesis by (simp only: length_rankPlayers)
qed

text \<open>
  C7 does not hold of a tournament one of whose players is called \<^verbatim>\<open>__proto__\<close>. The sample
  has eight different players and its only round is complete, so the claim asks for a round
  with number 2. The player \<^verbatim>\<open>__proto__\<close> has no stats entry, the ranking has seven players
  whatever the comparison of names, and the Mexicano pairing throws a \<^verbatim>\<open>TypeError\<close> at its
  second group: \<open>generateNextRound\<close> neither returns a round nor refuses with \<^verbatim>\<open>null\<close>, and
  \<open>addNextRound\<close> passes the \<^verbatim>\<open>TypeError\<close> on.
\<close>

theorem generateNextRound_proto_player_throws:
  "distinct (players protoTournament) \<and> length (players protoTournament) \<in> {8, 12, 16} \<and>
   rounds protoTournament \<noteq> [] \<and> isRoundComplete (last (rounds protoTournament)) \<and>
   length (rankPlayers lc protoTournament) = 7 \<and>
   generateNextRound lc protoTournament = Inl TypeError \<and>
   addNextRound lc now protoTournament = (Some TypeError, protoTournament)"
proof -
  have ne: "rounds protoTournament \<noteq> []" by (simp add: protoTournament_def)
  have n: "getCurrentRoundNumber protoTournament + 1 \<noteq> 1"
    by (simp add: getCurrentRoundNumber_def protoTournament_def)
  have can: "canStartNextRound protoTournament"
    using ne proto_round_complete by (simp add: canStartNextRound_iff)
  have g: "generateNextRound lc protoTournament = Inl TypeError"
    using can n createMexicanoPairings_seven [OF proto_ranked_length, of lc]
    by (simp add: generateNextRound_def Let_def)
  then have "addNextRound lc now protoTournament = (Some TypeError, protoTournament)"
    by (simp add: addNextRound_def)
  with g ne proto_players(1,2) proto_round_complete proto_ranked_length show ?thesis
    by simp
qed

section \<open>The cascade of a score edit\<close>



section \<open>Match ids after regeneration\<close>

text \<open>
  C1, as stated, fails: the ids of the regenerated round continue from the largest id of the
  rounds that are kept, not of all the original rounds. In the sample tournament the largest
  id is 4 and round 2 has the ids 3 and 4; after an edit of round 1 the regenerated round 2
  has the ids 3 and 4 again.
\<close>

theorem regenerated_ids_reuse_counterexample:
  "fst (updateMatchScore asciiCollation 9 sampleTournament 1 1 10 15) = None \<and>
   length (rounds sampleTournament) = 2 \<and>
   maxId sampleTournament = 4 \<and>
   map match_id (matches (last (rounds sampleTournament))) = [3, 4] \<and>
   map match_id (matches (last (rounds (snd (updateMatchScore asciiCollation 9 sampleTournament 1 1 10 15))))) =
     [3, 4]"
proof -
  have a: "fst (updateMatchScore asciiCollation 9 sampleTournament 1 1 10 15) = None"
    using sample_edit_ok by (metis fst_conv)
  have b: "map match_id (matches (last (rounds sampleTournament))) = [3, 4]"
    "length (rounds sampleTournament) = 2"
    by (simp_all add: sampleTournament_def sampleRound2_def newMatch_def)
  have n: "length (matches (last (rounds (snd (updateMatchScore asciiCollation 9 sampleTournament 1 1 10 15))))) = 2"
    by (rule regenerated_count [OF sample_edit_ok sample_edit_pre(5) sample_edit_complete
          sample_players])
  have c: "map match_id (matches (last (rounds (snd (updateMatchScore asciiCollation 9 sampleTournament 1 1 10 15))))) =
     [3, 4]"
    by (subst regenerated_ids(3) [OF sample_edit_ok sample_edit_pre(5) sample_edit_complete])
      (simp add: n sample_maxId upt_two)
  from a b c sample_maxId(1) show ?thesis by simp
qed

text \<open>
  C1, amended: after a successful edit of an earlier round \<open>r\<close> that leaves it complete, the
  matches of the regenerated round \<open>r + 1\<close> get the ids that continue from the largest id of
  the original rounds \<open>1..r\<close> (or from 0), in the order of the matches; they are different from
  each other and larger than every id of the rounds that are kept.
\<close>

theorem regenerated_ids_continue_retained:
  assumes "updateMatchScore lc now t roundNum matchId score1 score2 = (None, t')"
    and "roundNum < int (length (rounds t))"
    and "isRoundComplete (rounds t' ! nat (roundNum - 1))"
  shows "length (rounds t') = nat roundNum + 1 \<and>
     map match_id (matches (last (rounds t'))) =
       map (\<lambda>k. maxId (t\<lparr>rounds := take (nat roundNum) (rounds t)\<rparr>) + int k + 1)
         [0..<length (matches (last (rounds t')))] \<and>
     (\<forall>m\<in>set (concat (map matches (butlast (rounds t')))).
        \<forall>m'\<in>set (matches (last (rounds t'))). match_id m < match_id m') \<and>
     distinct (map match_id (matches (last (rounds t'))))"
proof -
  let ?M = "maxId (t\<lparr>rounds := take (nat roundNum) (rounds t)\<rparr>)"
  let ?new = "matches (last (rounds t'))"
  note ids = regenerated_ids [OF assms]
  have old: "match_id m \<le> ?M" if "m \<in> set (concat (map matches (butlast (rounds t'))))" for m
  proof -
    from that have "m \<in> set (concat (map matches (rounds
        (t\<lparr>rounds := take (nat roundNum) (rounds (writeScore t (roundNum - 1) matchId score1 score2))\<rparr>))))"
      by (simp add: ids(2))
    from maxId_bound [OF this] show ?thesis by (simp only: maxId_writeScore_take)
  qed
  have new: "?M < match_id m'" if "m' \<in> set ?new" for m'
  proof -
    from that have "match_id m' \<in> set (map match_id ?new)" by simp
    then show ?thesis by (subst (asm) ids(3)) auto
  qed
  have "distinct (map (\<lambda>k. ?M + int k + 1) [0..<length ?new])"
    by (simp add: distinct_map inj_on_def)
  then have "distinct (map match_id ?new)" by (subst ids(3))
  with ids(1) ids(3) old new show ?thesis by (meson le_less_trans)
qed

theorem regenerated_ids_continue_retained_witness:
  "updateMatchScore asciiCollation 9 sampleTournament 1 1 10 15 =
     (None, snd (updateMatchScore asciiCollation 9 sampleTournament 1 1 10 15)) \<and>
   1 < int (length (rounds sampleTournament)) \<and>
   isRoundComplete (rounds (snd (updateMatchScore asciiCollation 9 sampleTournament 1 1 10 15)) ! nat (1 - 1)) \<and>
   length (rounds (snd (updateMatchScore asciiCollation 9 sampleTournament 1 1 10 15))) = nat 1 + 1 \<and>
   distinct (map match_id
     (matches (last (rounds (snd (updateMatchScore asciiCollation 9 sampleTournament 1 1 10 15)))))) \<and>
   maxId (sampleTournament\<lparr>rounds := take (nat 1) (rounds sampleTournament)\<rparr>) = 2 \<and>
   map match_id (matches (last (rounds (snd (updateMatchScore asciiCollation 9 sampleTournament 1 1 10 15))))) =
     [3, 4]"
proof -
  have "map match_id (matches (last (rounds (snd (updateMatchScore asciiCollation 9 sampleTournament 1 1 10 15))))) =
     [3, 4]"
    by (simp add: sample_edit_result newMatch_def)
  then show ?thesis
    using sample_edit_ok sample_edit_pre(5) sample_edit_complete sample_maxId(2)
      regenerated_ids_continue_retained [OF sample_edit_ok sample_edit_pre(5) sample_edit_complete]
    by blast
qed

section \<open>Statistics as sums over the complete matches\<close>

text \<open>
  \<open>calculateStats\<close> has an entry for every declared player who is not called \<^verbatim>\<open>__proto__\<close>. Its
  points are the sum of the player's credits, its games their number, its wins and losses
  the numbers of credits of a winning and of a losing team, where only complete matches give
  credits, to both players of a team alike. Points per game and win percentage are
  \<open>totalPoints / gamesPlayed\<close> and \<open>(wins / gamesPlayed) * 100\<close> when a game was played and 0
  otherwise, and a player without a credit has the all-zero entry. Nothing else goes into the
  entry: a slot that holds another name gives the player no credit.
\<close>

lemma calculateStats_sums:
  assumes "p \<in> set (players t)" "p \<noteq> ''__proto__''"
  shows "\<exists>s. map_of (calculateStats t) p = Some s \<and> name s = p \<and>
     totalPoints s = sum_list (map fst (creditsOf t p)) \<and>
     gamesPlayed s = int (length (creditsOf t p)) \<and>
     wins s = int (length (filter snd (creditsOf t p))) \<and>
     losses s = int (length (filter (\<lambda>c. \<not> snd c) (creditsOf t p))) \<and>
     pointsPerGame s = (if gamesPlayed s > 0 then totalPoints s / of_int (gamesPlayed s) else 0) \<and>
     winPercentage s =
       (if gamesPlayed s > 0 then of_int (wins s) / of_int (gamesPlayed s) * 100 else 0) \<and>
     (creditsOf t p = [] \<longrightarrow> s = zeroStats p)"
proof -
  let ?s = "derived (foldl (\<lambda>s c. credit (fst c) (snd c) s) (zeroStats p) (creditsOf t p))"
  have m: "map_of (calculateStats t) p = Some ?s"
    using assms by (simp add: map_of_calculateStats)
  have z: "creditsOf t p = [] \<Longrightarrow> ?s = zeroStats p"
    by (simp add: derived_def zeroStats_def)
  have f: "name ?s = p"
     "totalPoints ?s = sum_list (map fst (creditsOf t p))"
     "gamesPlayed ?s = int (length (creditsOf t p))"
     "wins ?s = int (length (filter snd (creditsOf t p)))"
     "losses ?s = int (length (filter (\<lambda>c. \<not> snd c) (creditsOf t p)))"
     "pointsPerGame ?s = (if gamesPlayed ?s > 0 then totalPoints ?s / of_int (gamesPlayed ?s) else 0)"
     "winPercentage ?s =
       (if gamesPlayed ?s > 0 then of_int (wins ?s) / of_int (gamesPlayed ?s) * 100 else 0)"
    by (simp_all add: derived_fields foldl_credit_fields zeroStats_def)
  from m z f show ?thesis by blast
qed

lemma sample_stats:
  "map (\<lambda>(k, s). (k, totalPoints s, gamesPlayed s, wins s, losses s, pointsPerGame s,
       winPercentage s)) (calculateStats sampleTournament) =
     [(''A'', 15, 1, 1, 0, 15, 100), (''B'', 10, 1, 0, 1, 10, 0), (''C'', 10, 1, 0, 1, 10, 0),
      (''D'', 15, 1, 1, 0, 15, 100), (''E'', 5, 1, 0, 1, 5, 0), (''F'', 20, 1, 1, 0, 20, 100),
      (''G'', 20, 1, 1, 0, 20, 100), (''H'', 5, 1, 0, 1, 5, 0)]"
  by code_simp

text \<open>
  C5 does not hold of a declared player called \<^verbatim>\<open>__proto__\<close>: no tournament has a stats entry
  under that name. In the sample the name is the eighth of the declared players, and the
  player was on the losing team of a complete match of round 1, for which the claim gives the
  player 5 points, one game and one loss; the returned object has the seven entries of the
  other players and none for this one.
\<close>

theorem calculateStats_proto_player_missing:
  "map_of (calculateStats t) ''__proto__'' = None \<and>
   ''__proto__'' \<in> set (players protoTournament) \<and>
   creditsOf protoTournament ''__proto__'' = [(5, False)] \<and>
   map fst (calculateStats protoTournament) = [''A'', ''B'', ''C'', ''D'', ''E'', ''F'', ''G'']"
proof -
  have "creditsOf protoTournament ''__proto__'' = [(5, False)]"
    by (simp add: creditsOf_def completeMatches_def credits_def scoreValue_def propertyKey_def
        protoTournament_def newMatch_def isMatchComplete_def isValidScore_def)
  then show ?thesis
    using proto_players(3) proto_keys by (simp add: map_of_calculateStats)
qed

section \<open>Participants outside the player list\<close>

text \<open>
  The keys of the object that \<open>calculateStats\<close> returns are the declared players except
  \<^verbatim>\<open>__proto__\<close>, each once and with the entry that carries its name, and there is nothing under
  any other name. A participant of a match that is not a declared player changes nothing:
  renaming such participants to other undeclared names gives the same result. The
  function has no failing branch.
\<close>

lemma calculateStats_keys:
  "set (map fst (calculateStats t)) = set (players t) - {''__proto__''}"
  "distinct (map fst (calculateStats t))"
  "p \<notin> set (players t) \<Longrightarrow> map_of (calculateStats t) p = None"
proof -
  show "set (map fst (calculateStats t)) = set (players t) - {''__proto__''}"
    by (simp only: map_fst_calculateStats keys_initStats)
  show "distinct (map fst (calculateStats t))"
    by (simp only: map_fst_calculateStats distinct_initStats)
  show "p \<notin> set (players t) \<Longrightarrow> map_of (calculateStats t) p = None"
    by (simp add: map_of_calculateStats)
qed

lemma calculateStats_renamed:
  assumes "keepsDeclared f (players t)"
  shows "calculateStats (renameSlots f t) = calculateStats t"
proof -
  have k0: "fst ` set (initStats (players t)) = set (players t) - {''__proto__''}"
    using keys_initStats [of "players t"] by (simp only: set_map)
  from assms
  have a: "\<forall>q. propertyKey q \<in> set (players t) \<longrightarrow> propertyKey (f q) = propertyKey q"
    and b: "\<forall>q. propertyKey q \<notin> set (players t) \<longrightarrow> propertyKey (f q) \<notin> set (players t)"
    by (simp_all add: keepsDeclared_def)
  have "foldl processMatch (initStats (players t))
        (map (renameMatch f) (concat (map matches (rounds t)))) =
      foldl processMatch (initStats (players t)) (concat (map matches (rounds t)))"
  proof (rule foldl_processMatch_renamed)
    fix q assume "propertyKey q \<in> fst ` set (initStats (players t))"
    with a show "propertyKey (f q) = propertyKey q" by (simp add: k0)
  next
    fix q assume n: "propertyKey q \<notin> fst ` set (initStats (players t))"
    show "propertyKey (f q) \<notin> fst ` set (initStats (players t))"
    proof (cases "propertyKey q \<in> set (players t)")
      case True
      with n have "propertyKey q = ''__proto__''" by (simp add: k0)
      moreover from True a have "propertyKey (f q) = propertyKey q" by blast
      ultimately show ?thesis by (simp add: k0)
    next
      case False
      with b show ?thesis by (simp add: k0)
    qed
  qed
  then show ?thesis
    by (simp add: calculateStats_def Let_def foldl_rounds_concat matches_renameSlots)
qed

lemma guest_stats:
  "map (\<lambda>(k, s). (k, totalPoints s, gamesPlayed s, wins s)) (calculateStats guestTournament) =
     [(''A'', 0, 0, 0), (''B'', 10, 1, 0), (''C'', 10, 1, 0), (''D'', 15, 1, 1),
      (''E'', 5, 1, 0), (''F'', 20, 1, 1), (''G'', 20, 1, 1), (''H'', 5, 1, 0)]"
  by code_simp

lemma guest_keepsDeclared: "keepsDeclared renameGuest (players guestTournament)"
  by (auto simp: keepsDeclared_def renameGuest_def propertyKey_def guestTournament_def
      sampleTournament_def samplePlayers_def)

text \<open>
  C10 does not hold of a tournament one of whose players is called \<^verbatim>\<open>__proto__\<close>: the keys of
  the returned object are the declared players without that name, so they are not exactly
  the declared players. The sample has eight different players and the object has seven
  keys.
\<close>

theorem calculateStats_proto_player_no_key:
  "set (map fst (calculateStats t)) = set (players t) - {''__proto__''} \<and>
   distinct (players protoTournament) \<and> length (players protoTournament) = 8 \<and>
   ''__proto__'' \<in> set (players protoTournament) \<and>
   length (calculateStats protoTournament) = 7 \<and>
   set (map fst (calculateStats protoTournament)) \<noteq> set (players protoTournament)"
proof -
  have k: "set (map fst (calculateStats t)) = set (players t) - {''__proto__''}" for t
    by (simp only: map_fst_calculateStats keys_initStats)
  have "length (calculateStats protoTournament) = length (map fst (calculateStats protoTournament))"
    by simp
  also have "\<dots> = 7" by (simp only: proto_keys) simp
  finally have l: "length (calculateStats protoTournament) = 7" .
  have "set (map fst (calculateStats protoTournament)) \<noteq> set (players protoTournament)"
    using proto_players(3) unfolding k by blast
  with k l proto_players show ?thesis by simp
qed

section \<open>The ranking\<close>

text \<open>
  C4, as stated, fails: the names are compared by the runtime's \<^verbatim>\<open>localeCompare\<close>, which is
  not the case-sensitive lexicographic comparison. Before the first round of the tournament
  of Bob, alice, Dave, carol, Frank, erin, Heidi and grace all entries are level and the
  names decide: the ranking begins with alice and Bob, while in the case-sensitive
  lexicographic order Bob, as every name with a capital, comes before alice.
\<close>

theorem rankPlayers_collation_counterexample:
  "map name (rankPlayers asciiCollation mixedCaseTournament) =
     [''alice'', ''Bob'', ''carol'', ''Dave'', ''erin'', ''Frank'', ''grace'', ''Heidi''] \<and>
   caseSensitiveOrder ''alice'' ''Bob'' = 1 \<and>
   \<not> sorted_wrt (rankedBefore caseSensitiveOrder) (rankPlayers asciiCollation mixedCaseTournament)"
proof -
  have "caseSensitiveOrder ''alice'' ''Bob'' = 1" by code_simp
  with mixedCase_ranking mixedCase_not_by_code show ?thesis by simp
qed

text \<open>
  C4, amended: \<open>rankPlayers\<close> returns the entries of \<open>calculateStats\<close>, each with a rank, in the
  order of total points descending, then wins descending, then points per game descending,
  then name ascending in the order of the runtime's \<^verbatim>\<open>localeCompare\<close>, whatever total preorder
  of the names that is. The first has rank 1; a later player has the rank of its predecessor
  when both its total points and its wins equal the predecessor's, and its position counted
  from 1 otherwise. When \<^verbatim>\<open>localeCompare\<close> tells any two different names apart, the order is
  the only one: whichever way the entries are sorted by the four keys, the result is this
  list.
\<close>

theorem rankPlayers_sorted_ranked:
  "mset (map PlayerStats.truncate (rankPlayers lc t)) = mset (map snd (calculateStats t)) \<and>
   (totalPreorder lc \<longrightarrow> sorted_wrt (rankedBefore lc) (rankPlayers lc t)) \<and>
   (\<forall>i<length (rankPlayers lc t).
      rank (rankPlayers lc t ! i) =
        (if i = 0 then 1
         else if totalPoints (rankPlayers lc t ! i) = totalPoints (rankPlayers lc t ! (i - 1)) \<and>
                 wins (rankPlayers lc t ! i) = wins (rankPlayers lc t ! (i - 1))
              then rank (rankPlayers lc t ! (i - 1))
              else int i + 1)) \<and>
   (totalPreorder lc \<and> separatesNames lc \<longrightarrow>
      (\<forall>ys. mset ys = mset (map snd (calculateStats t)) \<and> sorted_wrt (rankedBefore lc) ys \<longrightarrow>
         ys = map PlayerStats.truncate (rankPlayers lc t)))"
proof -
  have a: "mset (map PlayerStats.truncate (rankPlayers lc t)) = mset (map snd (calculateStats t))"
    by (simp only: rankPlayers_sorted_stats mset_sortBy)
  have b: "sorted_wrt (rankedBefore lc) (rankPlayers lc t)" if tp: "totalPreorder lc"
  proof -
    have "sorted_wrt (rankedBefore lc) (map PlayerStats.truncate (rankPlayers lc t))"
      by (simp only: rankPlayers_sorted_stats sorted_sortBy [OF tp])
    then show ?thesis by (simp add: sorted_wrt_map rankedBefore_truncate)
  qed
  from a b rankPlayers_rank rankPlayers_only_order show ?thesis by blast
qed

theorem rankPlayers_sorted_ranked_witness:
  "totalPreorder asciiCollation \<and> separatesNames asciiCollation \<and>
   1 < length (rankPlayers asciiCollation sampleTournament) \<and>
   sorted_wrt (rankedBefore asciiCollation) (rankPlayers asciiCollation sampleTournament) \<and>
   rank (rankPlayers asciiCollation sampleTournament ! 0) = 1 \<and>
   rank (rankPlayers asciiCollation sampleTournament ! 1) =
     (if totalPoints (rankPlayers asciiCollation sampleTournament ! 1) =
           totalPoints (rankPlayers asciiCollation sampleTournament ! 0) \<and>
         wins (rankPlayers asciiCollation sampleTournament ! 1) =
           wins (rankPlayers asciiCollation sampleTournament ! 0)
      then rank (rankPlayers asciiCollation sampleTournament ! 0)
      else 2) \<and>
   map name (rankPlayers asciiCollation sampleTournament) =
     [''F'', ''G'', ''A'', ''D'', ''B'', ''C'', ''E'', ''H''] \<and>
   map rank (rankPlayers asciiCollation sampleTournament) = [1, 1, 3, 3, 5, 5, 7, 7]"
proof -
  let ?r = "rankPlayers asciiCollation sampleTournament"
  have l: "0 < length ?r" "1 < length ?r"
    by (simp_all add: sample_ranked_length)
  from rankPlayers_sorted_ranked [of asciiCollation sampleTournament] asciiCollation_totalPreorder
  have s: "sorted_wrt (rankedBefore asciiCollation) ?r"
    and r: "\<forall>i<length ?r.
      rank (?r ! i) =
        (if i = 0 then 1
         else if totalPoints (?r ! i) = totalPoints (?r ! (i - 1)) \<and>
                 wins (?r ! i) = wins (?r ! (i - 1))
              then rank (?r ! (i - 1))
              else int i + 1)"
    by blast+
  from r l(1) have r0: "rank (?r ! 0) = 1" by simp
  from r l(2) have "rank (?r ! 1) =
        (if (1::nat) = 0 then 1
         else if totalPoints (?r ! 1) = totalPoints (?r ! (1 - 1)) \<and>
                 wins (?r ! 1) = wins (?r ! (1 - 1))
              then rank (?r ! (1 - 1))
              else int 1 + 1)"
    by blast
  then have r1: "rank (?r ! 1) =
     (if totalPoints (?r ! 1) = totalPoints (?r ! 0) \<and> wins (?r ! 1) = wins (?r ! 0)
      then rank (?r ! 0)
      else 2)"
    by simp
  from l(2) s r0 r1 sample_ranking asciiCollation_totalPreorder asciiCollation_separatesNames
  show ?thesis by blast
qed

end
